theory Spec2Isabelle
  imports Complex_Main "HOL-Library.Sublist"
begin

section \<open>Python strings\<close>

text \<open>
  A Python \<open>str\<close> is a sequence of code points. The model uses \<^typ>\<open>string\<close>, whose
  characters are the code points U+0000 to U+00FF; \<open>str.lower\<close> and \<open>str.isspace\<close>
  are written out for that range, on which \<open>lower\<close> is closed.
\<close>

definition lower_char :: "char \<Rightarrow> char" where
  "lower_char c =
     (let n = (of_char c :: nat)
      in if (65 \<le> n \<and> n \<le> 90) \<or> (192 \<le> n \<and> n \<le> 222 \<and> n \<noteq> 215)
         then char_of (n + 32) else c)"

definition lower :: "string \<Rightarrow> string" where
  "lower s = map lower_char s"

definition isspace :: "char \<Rightarrow> bool" where
  "isspace c =
     (let n = (of_char c :: nat)
      in (9 \<le> n \<and> n \<le> 13) \<or> (28 \<le> n \<and> n \<le> 32) \<or> n = 133 \<or> n = 160)"

text \<open>\<open>s.strip()\<close>: whitespace removed at both ends.\<close>

definition strip :: "string \<Rightarrow> string" where
  "strip s = rev (dropWhile isspace (rev (dropWhile isspace s)))"

text \<open>\<open>a in b\<close> on strings: \<open>a\<close> occurs in \<open>b\<close> as a contiguous run of characters.\<close>

fun starts_with :: "string \<Rightarrow> string \<Rightarrow> bool" where
  "starts_with s [] = True"
| "starts_with [] (p # ps) = False"
| "starts_with (x # xs) (p # ps) = (x = p \<and> starts_with xs ps)"

fun in_str :: "string \<Rightarrow> string \<Rightarrow> bool" where
  "in_str a [] = (a = [])"
| "in_str a (x # xs) = (starts_with (x # xs) a \<or> in_str a xs)"

text \<open>
  \<open>s.split(sep)\<close> for a non-empty separator: the pieces between the occurrences of
  \<open>sep\<close>, found from left to right without overlap. \<open>cur\<close> is the piece being read.
\<close>

fun split_from :: "string \<Rightarrow> string \<Rightarrow> string \<Rightarrow> string list" where
  "split_from sep [] cur = [cur]"
| "split_from sep (x # xs) cur =
     (if starts_with (x # xs) sep then cur # split_from sep (drop (length sep - 1) xs) []
      else split_from sep xs (cur @ [x]))"

definition split :: "string \<Rightarrow> string \<Rightarrow> string list" where
  "split sep s = split_from sep s []"

definition quote :: string where
  "quote = [CHR 0x27]"

section \<open>The evaluator: data\<close>

record test_case =
  tc_category :: string
  tc_question :: string
  tc_expected_keywords :: "string list"
  tc_context :: string
  tc_difficulty :: string

record eval_result =
  res_category :: string
  res_question :: string
  res_response :: string
  res_expected_keywords :: "string list"
  res_matched_keywords :: "string list"
  res_matches :: nat
  res_total_keywords :: nat
  res_score :: rat
  res_difficulty :: string
  res_model_type :: string

record model_summary =
  average_score :: rat
  total_matches :: nat
  perfect_scores :: nat
  zero_scores :: nat
  category_scores :: "(string \<times> rat) list"

record improvement =
  score_improvement :: rat
  percentage_improvement :: rat
  better_performance :: bool

record summary =
  sum_fine_tuned :: model_summary
  sum_base_model :: model_summary
  sum_improvement :: improvement

text \<open>The dictionary \<open>results\<close>; its \<open>summary\<close> is \<open>None\<close> while it is still \<open>{}\<close>.\<close>

record results =
  fine_tuned :: "eval_result list"
  base_model :: "eval_result list"
  summary :: "summary option"

datatype exn = ZeroDivisionError | Exception string

fun exn_message :: "exn \<Rightarrow> string" where
  "exn_message ZeroDivisionError = ''division by zero''"
| "exn_message (Exception msg) = msg"

text \<open>
  The evaluator's surroundings. The two loaded models are told apart by \<open>model\<close>; a
  generation call is recorded as the model it ran on and the prompt it was given.
  Generation samples, so its answer may depend on every call made before it:
  \<open>generate\<close> takes the calls so far, the model and the prompt, and gives the decoded
  text or the exception raised (tokenizer, \<open>model.generate\<close> and \<open>decode\<close> together).
  \<open>load_models\<close> is the constructor's three \<open>from_pretrained\<close> calls, and
  \<open>open_for_writing\<close> the \<open>open(output_file, 'w')\<close> of \<open>save_results\<close>; each gives
  the exception raised, if any.
\<close>

datatype model = FineTunedModel | BaseModel

type_synonym call_log = "(model \<times> string) list"

record env =
  path_exists :: "string \<Rightarrow> bool"
  load_models :: "string \<Rightarrow> string \<Rightarrow> exn option"
  generate :: "call_log \<Rightarrow> model \<Rightarrow> string \<Rightarrow> exn + string"
  open_for_writing :: "string \<Rightarrow> exn option"

text \<open>
  What the process has done so far: the lines printed, the generation calls made and the
  files written. \<open>Report r\<close> stands for the lines \<open>print_evaluation_report\<close> prints for
  \<open>r\<close>, and \<open>SavedNotice f\<close> for the line of \<open>save_results\<close> naming \<open>f\<close>. A written file
  is kept as the value handed to \<open>json.dump\<close>.
\<close>

datatype printed = Line string | Report results | SavedNotice string

record world =
  stdout :: "printed list"
  gen_calls :: call_log
  written :: "(string \<times> results) list"

record args =
  arg_base_model :: string
  arg_fine_tuned_model :: string
  arg_output :: string
  arg_no_comparison :: bool

section \<open>The evaluator: operations\<close>

definition create_evaluation_tests :: "test_case list" where
  "create_evaluation_tests =
    [\<lparr>tc_category = ''Architecture Patterns'',
      tc_question = ''How should I implement a new auto-generated field in the Estate model?'',
      tc_expected_keywords =
        [''scanBoxId'', ''backend generation'', ''display-only'', ''frontend'', ''auto-generated''],
      tc_context = ''I'm implementing new fields in a GraphQL/Prisma/React application'',
      tc_difficulty = ''medium''\<rparr>,
     \<lparr>tc_category = ''Architecture Patterns'',
      tc_question = ''What's the difference between Estate Email Pattern and taxId Pattern?'',
      tc_expected_keywords =
        [''Estate Email'', ''taxId'', ''unique constraint'', ''migration'', ''nullable''],
      tc_context = ''I need to understand field implementation patterns'',
      tc_difficulty = ''medium''\<rparr>,
     \<lparr>tc_category = ''Architecture Patterns'',
      tc_question = ''How do GraphQL resolvers work in this codebase?'',
      tc_expected_keywords =
        [''generated resolvers'', ''custom resolvers'', ''priority'', ''registered'', ''both''],
      tc_context = ''I'm implementing GraphQL resolvers'',
      tc_difficulty = ''hard''\<rparr>,
     \<lparr>tc_category = ''Environment Gotchas'',
      tc_question = ''I'm getting dependency conflicts with MUI Lab. What should I do?'',
      tc_expected_keywords =
        [''legacy-peer-deps'', ''npm install'', ''React 19'', ''MUI Lab''],
      tc_context = ''Frontend dependency resolution issues'',
      tc_difficulty = ''easy''\<rparr>,
     \<lparr>tc_category = ''Environment Gotchas'',
      tc_question = ''How do I start the backend service properly?'',
      tc_expected_keywords =
        [''Node 22'', ''nvm use'', ''background'', ''yarn start'', ''foreground''],
      tc_context = ''Backend service management'',
      tc_difficulty = ''medium''\<rparr>,
     \<lparr>tc_category = ''Environment Gotchas'',
      tc_question = ''I'm having database permission issues with Prisma migrations. What's wrong?'',
      tc_expected_keywords =
        [''patrickclawson'', ''CREATEDB'', ''permissions'', ''superuser'', ''shadow database''],
      tc_context = ''Database migration problems'',
      tc_difficulty = ''hard''\<rparr>,
     \<lparr>tc_category = ''Critical Commands'',
      tc_question = ''How do I check migration status and apply pending migrations?'',
      tc_expected_keywords =
        [''prisma migrate status'', ''prisma migrate deploy'', ''npx''],
      tc_context = ''Database migration management'',
      tc_difficulty = ''easy''\<rparr>,
     \<lparr>tc_category = ''Critical Commands'',
      tc_question = ''How do I kill all backend processes and clean up services?'',
      tc_expected_keywords =
        [''pkill'', ''ts-node-dev'', ''yarn start'', ''ps aux''],
      tc_context = ''Service cleanup and management'',
      tc_difficulty = ''medium''\<rparr>,
     \<lparr>tc_category = ''Lessons Learned'',
      tc_question = ''What's the proper methodology for implementing new fields?'',
      tc_expected_keywords =
        [''Jira-First'', ''Complete Field Analysis'', ''Backend-First'', ''Data Flow Tracing''],
      tc_context = ''Implementation methodology'',
      tc_difficulty = ''hard''\<rparr>,
     \<lparr>tc_category = ''Lessons Learned'',
      tc_question = ''I'm confused about 'crud resolvers'. What's happening?'',
      tc_expected_keywords =
        [''generated resolvers'', ''custom resolvers'', ''precedence'', ''both''],
      tc_context = ''GraphQL resolver confusion'',
      tc_difficulty = ''medium''\<rparr>,
     \<lparr>tc_category = ''Authentication'',
      tc_question = ''What are the working authentication credentials for testing?'',
      tc_expected_keywords =
        [''admintest@meetalix.com'', ''te8mAlix!'', ''Admin'', ''localhost:3000''],
      tc_context = ''Application testing access'',
      tc_difficulty = ''easy''\<rparr>,
     \<lparr>tc_category = ''Authentication'',
      tc_question = ''What are the access requirements for this application?'',
      tc_expected_keywords =
        [''AWS Cognito'', ''Admin'', ''SuperAdmin'', ''authentication required''],
      tc_context = ''Application access setup'',
      tc_difficulty = ''medium''\<rparr>]"

definition prompt_of :: "string \<Rightarrow> string \<Rightarrow> string" where
  "prompt_of question context =
     ''### Instruction:\<newline>'' @ question @ ''\<newline>\<newline>### Context:\<newline>'' @ context
       @ ''\<newline>\<newline>### Response:\<newline>''"

definition model_of :: "string \<Rightarrow> model" where
  "model_of model_type = (if model_type = ''fine_tuned'' then FineTunedModel else BaseModel)"

definition generate_response ::
  "env \<Rightarrow> string \<Rightarrow> string \<Rightarrow> string \<Rightarrow> world \<Rightarrow> (exn + string) \<times> world" where
  "generate_response e question context model_type w =
     (let model = model_of model_type;
          prompt = prompt_of question context;
          w' = w\<lparr>gen_calls := gen_calls w @ [(model, prompt)]\<rparr>
      in case generate e (gen_calls w) model prompt of
           Inl ex \<Rightarrow> (Inl ex, w')
         | Inr response \<Rightarrow>
             (Inr (strip (if in_str ''### Response:\<newline>'' response
                          then last (split ''### Response:\<newline>'' response)
                          else response)), w'))"

text \<open>
  \<open>evaluate_keywords\<close>. The \<open>for\<close> loop over the expected keywords appends to
  \<open>matched_keywords\<close>; it is the recursion \<open>keyword_loop\<close>, with the list built so far
  as accumulator. A Python \<open>float\<close> is modelled as the exact rational it approximates;
  the rounding of binary floating point is outside the model.
\<close>

fun keyword_loop :: "string \<Rightarrow> string list \<Rightarrow> string list \<Rightarrow> string list" where
  "keyword_loop response_lower [] matched_keywords = matched_keywords"
| "keyword_loop response_lower (keyword # rest) matched_keywords =
     keyword_loop response_lower rest
       (if in_str (lower keyword) response_lower
        then matched_keywords @ [keyword] else matched_keywords)"

definition evaluate_keywords :: "string \<Rightarrow> string list \<Rightarrow> nat \<times> rat \<times> string list" where
  "evaluate_keywords response expected_keywords =
     (let response_lower = lower response;
          matched_keywords = keyword_loop response_lower expected_keywords [];
          matches = length matched_keywords;
          score = (if expected_keywords \<noteq> []
                   then of_nat matches / of_nat (length expected_keywords) else 0)
      in (matches, score, matched_keywords))"

definition evaluate_test_case ::
  "env \<Rightarrow> test_case \<Rightarrow> string \<Rightarrow> world \<Rightarrow> (exn + eval_result) \<times> world" where
  "evaluate_test_case e tc model_type w =
     (case generate_response e (tc_question tc) (tc_context tc) model_type w of
        (Inl ex, w') \<Rightarrow> (Inl ex, w')
      | (Inr response, w') \<Rightarrow>
          (case evaluate_keywords response (tc_expected_keywords tc) of
             (matches, score, matched_keywords) \<Rightarrow>
               (Inr \<lparr>res_category = tc_category tc,
                     res_question = tc_question tc,
                     res_response = response,
                     res_expected_keywords = tc_expected_keywords tc,
                     res_matched_keywords = matched_keywords,
                     res_matches = matches,
                     res_total_keywords = length (tc_expected_keywords tc),
                     res_score = score,
                     res_difficulty = tc_difficulty tc,
                     res_model_type = model_type\<rparr>, w')))"

text \<open>One pass of \<open>run_evaluation\<close>: the loop over the test cases for one model type.\<close>

fun evaluation_pass ::
  "env \<Rightarrow> string \<Rightarrow> test_case list \<Rightarrow> eval_result list \<Rightarrow> world
     \<Rightarrow> (exn + eval_result list) \<times> world" where
  "evaluation_pass e model_type [] acc w = (Inr acc, w)"
| "evaluation_pass e model_type (tc # tcs) acc w =
     (case evaluate_test_case e tc model_type w of
        (Inl ex, w') \<Rightarrow> (Inl ex, w')
      | (Inr result, w') \<Rightarrow> evaluation_pass e model_type tcs (acc @ [result]) w')"

definition py_div :: "rat \<Rightarrow> nat \<Rightarrow> exn + rat" where
  "py_div a n = (if n = 0 then Inl ZeroDivisionError else Inr (a / of_nat n))"

text \<open>
  \<open>_calculate_category_scores\<close>. The dictionary keeps its keys in insertion order, so it
  is an association list; \<open>add_score\<close> is the body of the first loop and
  \<open>category_averages\<close> the second loop.
\<close>

fun add_score :: "string \<Rightarrow> rat \<Rightarrow> (string \<times> rat list) list \<Rightarrow> (string \<times> rat list) list" where
  "add_score category score [] = [(category, [score])]"
| "add_score category score ((k, v) # m) =
     (if k = category then (k, v @ [score]) # m else (k, v) # add_score category score m)"

fun collect_scores :: "eval_result list \<Rightarrow> (string \<times> rat list) list \<Rightarrow> (string \<times> rat list) list" where
  "collect_scores [] m = m"
| "collect_scores (r # rs) m = collect_scores rs (add_score (res_category r) (res_score r) m)"

fun category_averages :: "(string \<times> rat list) list \<Rightarrow> exn + (string \<times> rat) list" where
  "category_averages [] = Inr []"
| "category_averages ((k, v) # m) =
     (case py_div (sum_list v) (length v) of
        Inl ex \<Rightarrow> Inl ex
      | Inr a \<Rightarrow> (case category_averages m of
                    Inl ex \<Rightarrow> Inl ex
                  | Inr m' \<Rightarrow> Inr ((k, a) # m')))"

definition calculate_category_scores :: "eval_result list \<Rightarrow> exn + (string \<times> rat) list" where
  "calculate_category_scores rs = category_averages (collect_scores rs [])"

text \<open>
  \<open>_calculate_summary\<close>. \<open>summarise\<close> is the body of the loop over the two model types,
  its entries computed in the order of the dictionary display.
\<close>

definition summarise :: "eval_result list \<Rightarrow> exn + model_summary" where
  "summarise rs =
     (let scores = map res_score rs; matches = map res_matches rs
      in case py_div (sum_list scores) (length scores) of
           Inl ex \<Rightarrow> Inl ex
         | Inr avg \<Rightarrow>
             (case calculate_category_scores rs of
                Inl ex \<Rightarrow> Inl ex
              | Inr cs \<Rightarrow>
                  Inr \<lparr>average_score = avg,
                       total_matches = sum_list matches,
                       perfect_scores = length (filter (\<lambda>s. s = 1) scores),
                       zero_scores = length (filter (\<lambda>s. s = 0) scores),
                       category_scores = cs\<rparr>))"

definition calculate_summary :: "results \<Rightarrow> exn + summary" where
  "calculate_summary rs =
     (case summarise (fine_tuned rs) of
        Inl ex \<Rightarrow> Inl ex
      | Inr ft \<Rightarrow>
          (case summarise (base_model rs) of
             Inl ex \<Rightarrow> Inl ex
           | Inr bm \<Rightarrow>
               (let ft_avg = average_score ft; bm_avg = average_score bm
                in Inr \<lparr>sum_fine_tuned = ft,
                        sum_base_model = bm,
                        sum_improvement =
                          \<lparr>score_improvement = ft_avg - bm_avg,
                           percentage_improvement =
                             (if bm_avg > 0 then (ft_avg - bm_avg) / bm_avg * 100 else 0),
                           better_performance = (ft_avg > bm_avg)\<rparr>\<rparr>)))"

definition print :: "string \<Rightarrow> world \<Rightarrow> world" where
  "print line w = w\<lparr>stdout := stdout w @ [Line line]\<rparr>"

definition run_evaluation ::
  "env \<Rightarrow> test_case list option \<Rightarrow> world \<Rightarrow> (exn + results) \<times> world" where
  "run_evaluation e test_cases_arg w =
     (let test_cases = (case test_cases_arg of None \<Rightarrow> create_evaluation_tests | Some tcs \<Rightarrow> tcs);
          w1 = print ''Running evaluation on fine-tuned model...'' w
      in case evaluation_pass e ''fine_tuned'' test_cases [] w1 of
           (Inl ex, w2) \<Rightarrow> (Inl ex, w2)
         | (Inr ft, w2) \<Rightarrow>
             (let w3 = print ''Running evaluation on base model for comparison...'' w2
              in case evaluation_pass e ''base_model'' test_cases [] w3 of
                   (Inl ex, w4) \<Rightarrow> (Inl ex, w4)
                 | (Inr bm, w4) \<Rightarrow>
                     (let rs = \<lparr>fine_tuned = ft, base_model = bm, summary = None\<rparr>
                      in case calculate_summary rs of
                           Inl ex \<Rightarrow> (Inl ex, w4)
                         | Inr s \<Rightarrow> (Inr (rs\<lparr>summary := Some s\<rparr>), w4))))"

definition print_evaluation_report :: "results \<Rightarrow> world \<Rightarrow> world" where
  "print_evaluation_report rs w = w\<lparr>stdout := stdout w @ [Report rs]\<rparr>"

definition save_results :: "env \<Rightarrow> results \<Rightarrow> string \<Rightarrow> world \<Rightarrow> (exn + unit) \<times> world" where
  "save_results e rs output_file w =
     (case open_for_writing e output_file of
        Some ex \<Rightarrow> (Inl ex, w)
      | None \<Rightarrow>
          (Inr (), w\<lparr>written := written w @ [(output_file, rs)],
                     stdout := stdout w @ [SavedNotice output_file]\<rparr>))"

text \<open>
  \<open>main\<close> of the evaluator: the exit status and what the process has done. Every
  exception raised inside the \<open>try\<close> block is reported and turned into status 1.
\<close>

definition evaluation_failed :: "exn \<Rightarrow> world \<Rightarrow> nat \<times> world" where
  "evaluation_failed ex w = (1, print (''Error during evaluation: '' @ exn_message ex) w)"

definition main :: "env \<Rightarrow> args \<Rightarrow> world \<Rightarrow> nat \<times> world" where
  "main e a w =
     (if \<not> path_exists e (arg_fine_tuned_model a)
      then (1, print (''Error: Fine-tuned model directory '' @ quote @ arg_fine_tuned_model a @ quote
                       @ '' not found'') w)
      else case load_models e (arg_base_model a) (arg_fine_tuned_model a) of
             Some ex \<Rightarrow> evaluation_failed ex w
           | None \<Rightarrow>
               (case run_evaluation e None w of
                  (Inl ex, w1) \<Rightarrow> evaluation_failed ex w1
                | (Inr rs, w1) \<Rightarrow>
                    (case save_results e rs (arg_output a) (print_evaluation_report rs w1) of
                       (Inl ex, w2) \<Rightarrow> evaluation_failed ex w2
                     | (Inr u, w2) \<Rightarrow> (0, w2))))"

section \<open>Regular expressions\<close>

text \<open>
  The extractor's patterns are values of \<open>regex\<close>, one constructor for each construct
  of Python's \<open>re\<close> that they use: a literal character, \<open>.\<close> under \<open>re.DOTALL\<close> (any
  character), the classes \<open>[...]\<close> and \<open>[^...]\<close>, \<open>$\<close> (without \<open>re.MULTILINE\<close>: the
  end of the input, or just before a line break that ends the input), concatenation,
  \<open>|\<close>, a numbered group, the lookahead \<open>(?=...)\<close>, the lazy \<open>*?\<close> and the greedy
  \<open>+\<close>.

  \<open>re\<close> matches by backtracking. \<open>rmatch r s g\<close> lists every way in which \<open>r\<close> matches
  at the start of \<open>s\<close>, in the order in which backtracking reaches them: each is the
  input left after the match, with the groups captured (\<open>g\<close> holds the groups captured
  before). The head of the list is the match that \<open>re\<close> reports. A repetition gives up
  on an iteration that consumes nothing.
\<close>

datatype regex =
    Eps
  | Chr char
  | Dot
  | OneOf "char list"
  | NoneOf "char list"
  | Eos
  | Seq regex regex
  | Alt regex regex
  | Group nat regex
  | Look regex
  | LazyStar regex
  | Plus regex

type_synonym groups = "nat \<Rightarrow> string"

fun rmatch :: "regex \<Rightarrow> string \<Rightarrow> groups \<Rightarrow> (string \<times> groups) list" where
  "rmatch Eps s g = [(s, g)]"
| "rmatch (Chr c) s g = (case s of [] \<Rightarrow> [] | x # xs \<Rightarrow> if x = c then [(xs, g)] else [])"
| "rmatch Dot s g = (case s of [] \<Rightarrow> [] | x # xs \<Rightarrow> [(xs, g)])"
| "rmatch (OneOf cs) s g =
     (case s of [] \<Rightarrow> [] | x # xs \<Rightarrow> if x \<in> set cs then [(xs, g)] else [])"
| "rmatch (NoneOf cs) s g =
     (case s of [] \<Rightarrow> [] | x # xs \<Rightarrow> if x \<notin> set cs then [(xs, g)] else [])"
| "rmatch Eos s g = (if s = [] \<or> s = ''\<newline>'' then [(s, g)] else [])"
| "rmatch (Seq r1 r2) s g = concat (map (\<lambda>(s', g'). rmatch r2 s' g') (rmatch r1 s g))"
| "rmatch (Alt r1 r2) s g = rmatch r1 s g @ rmatch r2 s g"
| "rmatch (Group n r) s g =
     map (\<lambda>(s', g'). (s', g'(n := take (length s - length s') s))) (rmatch r s g)"
| "rmatch (Look r) s g = (case rmatch r s g of [] \<Rightarrow> [] | (s', g') # _ \<Rightarrow> [(s, g')])"
| "rmatch (LazyStar r) s g =
     (s, g) # concat (map (\<lambda>(s', g'). if length s' < length s
                                         then rmatch (LazyStar r) s' g' else [])
                       (rmatch r s g))"
| "rmatch (Plus r) s g =
     concat (map (\<lambda>(s', g'). (if length s' < length s then rmatch (Plus r) s' g' else [])
                                @ [(s', g')])
               (rmatch r s g))"

text \<open>A literal text (also what \<open>re.escape\<close> makes of a text), and a sequence.\<close>

fun lit :: "string \<Rightarrow> regex" where
  "lit [] = Eps"
| "lit (c # cs) = Seq (Chr c) (lit cs)"

fun seq :: "regex list \<Rightarrow> regex" where
  "seq [] = Eps"
| "seq [r] = r"
| "seq (r # rs) = Seq r (seq rs)"

definition no_groups :: groups where
  "no_groups = (\<lambda>n. [])"

text \<open>
  \<open>re.search\<close>: the first match at the leftmost position that has one, the end of the
  input included.
\<close>

fun search :: "regex \<Rightarrow> string \<Rightarrow> groups option" where
  "search r [] = (case rmatch r [] no_groups of [] \<Rightarrow> None | (rest, g) # _ \<Rightarrow> Some g)"
| "search r (x # xs) =
     (case rmatch r (x # xs) no_groups of [] \<Rightarrow> search r xs | (rest, g) # _ \<Rightarrow> Some g)"

text \<open>
  \<open>re.findall\<close>: the matches from left to right, each search starting where the match
  before ended. After an empty match the next one must not be empty at the same place
  (\<open>must_advance\<close>); a search that finds nothing at a position moves on by one
  character.
\<close>

function findall_from :: "regex \<Rightarrow> string \<Rightarrow> bool \<Rightarrow> groups list" where
  "findall_from r s must_advance =
     (case filter (\<lambda>(rest, g). \<not> must_advance \<or> length rest < length s)
             (rmatch r s no_groups) of
        (rest, g) # _ \<Rightarrow>
          g # (if length rest < length s then findall_from r rest False
               else if must_advance then []
               else findall_from r s True)
      | [] \<Rightarrow> (case s of [] \<Rightarrow> [] | x # xs \<Rightarrow> findall_from r xs False))"
  by pat_completeness auto
termination
  by (relation "measure (\<lambda>(r, s, must_advance). 2 * length s + (if must_advance then 0 else 1))")
     auto

declare findall_from.simps [simp del]

definition findall :: "regex \<Rightarrow> string \<Rightarrow> groups list" where
  "findall r s = findall_from r s False"

text \<open>What \<open>findall\<close> returns for a pattern with one group, and with two.\<close>

definition findall1 :: "regex \<Rightarrow> string \<Rightarrow> string list" where
  "findall1 r s = map (\<lambda>g. g 1) (findall r s)"

definition findall2 :: "regex \<Rightarrow> string \<Rightarrow> (string \<times> string) list" where
  "findall2 r s = map (\<lambda>g. (g 1, g 2)) (findall r s)"

section \<open>The extractor\<close>

text \<open>The five patterns of \<open>extract_training_data.py\<close>.\<close>

definition section_pattern :: "string \<Rightarrow> regex" where
  "section_pattern header =
     seq [lit header, Group 1 (LazyStar Dot), Look (Alt (lit ''\<newline>## '') Eos)]"

definition bullet_pattern :: regex where
  "bullet_pattern =
     seq [lit ''- **'', Group 1 (LazyStar Dot), lit ''**: '', Group 2 (LazyStar Dot),
          Look (Alt (lit ''\<newline>-'') (Alt (lit ''\<newline>\<newline>'') Eos))]"

definition subsection_pattern :: regex where
  "subsection_pattern =
     seq [lit ''### '', Group 1 (LazyStar Dot), lit ''\<newline>'', Group 2 (LazyStar Dot),
          Look (Alt (lit ''\<newline>### '') Eos)]"

definition code_block_pattern :: regex where
  "code_block_pattern =
     seq [lit ''```bash\<newline>'', Group 1 (LazyStar Dot), lit ''\<newline>```'']"

definition env_var_pattern :: regex where
  "env_var_pattern =
     seq [Group 1 (Plus (OneOf ''ABCDEFGHIJKLMNOPQRSTUVWXYZ_'')), lit ''='',
          Group 2 (Plus (NoneOf ''\<newline>''))]"

record example =
  ex_instruction :: string
  ex_context :: string
  ex_response :: string

text \<open>\<open>sep.join(xs)\<close>.\<close>

fun join :: "string \<Rightarrow> string list \<Rightarrow> string" where
  "join sep [] = []"
| "join sep [x] = x"
| "join sep (x # xs) = x @ sep @ join sep xs"

text \<open>
  \<open>_extract_section\<close>. Its second argument is the text to look in; the source takes
  \<open>self.content\<close> when none is given.
\<close>

definition extract_section :: "string \<Rightarrow> string \<Rightarrow> string" where
  "extract_section header content =
     (case search (section_pattern header) content of
        Some g \<Rightarrow> strip (g 1)
      | None \<Rightarrow> [])"

text \<open>
  The six routines. Each takes the document and the list \<open>self.examples\<close>, and returns
  the list with its examples appended. A \<open>for\<close> loop is a \<open>foldl\<close> over the list it
  runs through, from the list of examples it starts with.
\<close>

definition field_pattern_example :: "string \<times> string \<Rightarrow> example" where
  "field_pattern_example = (\<lambda>(pattern_name, description).
     \<lparr>ex_instruction = ''What is the '' @ pattern_name @ '' and how should I implement it?'',
      ex_context = ''I'm working on a GraphQL/Prisma/React application with PostgreSQL database'',
      ex_response = ''The '' @ pattern_name @ '': '' @ strip description\<rparr>)"

definition resolver_example :: "string \<times> string \<Rightarrow> example" where
  "resolver_example = (\<lambda>(point_name, explanation).
     \<lparr>ex_instruction = ''How do GraphQL resolvers work in this codebase?'',
      ex_context = ''I'm implementing GraphQL resolvers and need to understand the priority system'',
      ex_response = point_name @ '': '' @ strip explanation\<rparr>)"

definition ui_example :: "string \<times> string \<Rightarrow> example" where
  "ui_example = (\<lambda>(pattern_name, description).
     \<lparr>ex_instruction = ''How should I handle '' @ lower pattern_name @ '' in the UI?'',
      ex_context = ''I'm implementing UI components and need to understand rendering patterns'',
      ex_response = ''For '' @ pattern_name @ '': '' @ strip description\<rparr>)"

text \<open>The block of \<open>_extract_architecture_patterns\<close> under \<open># Field Implementation Patterns\<close>.\<close>

definition extract_field_patterns :: "string \<Rightarrow> example list \<Rightarrow> example list" where
  "extract_field_patterns patterns_section examples =
     (let field_patterns = findall2 bullet_pattern patterns_section
      in foldl (\<lambda>examples p. examples @ [field_pattern_example p]) examples field_patterns)"

definition extract_architecture_patterns :: "string \<Rightarrow> example list \<Rightarrow> example list" where
  "extract_architecture_patterns content examples =
     (let patterns_section = extract_section ''## Architecture Patterns Discovered'' content
      in if patterns_section = [] then examples
         else
           (let examples1 = extract_field_patterns patterns_section examples;
                resolver_section = extract_section ''### GraphQL Resolver Priority'' patterns_section;
                examples2 =
                  (if resolver_section \<noteq> []
                   then foldl (\<lambda>examples p. examples @ [resolver_example p]) examples1
                          (findall2 bullet_pattern resolver_section)
                   else examples1);
                ui_section = extract_section ''### UI Conditional Rendering Patterns'' patterns_section
            in if ui_section \<noteq> []
               then foldl (\<lambda>examples p. examples @ [ui_example p]) examples2
                      (findall2 bullet_pattern ui_section)
               else examples2))"

definition gotcha_example :: "string \<Rightarrow> string \<times> string \<Rightarrow> example" where
  "gotcha_example section_name = (\<lambda>(gotcha_name, solution).
     \<lparr>ex_instruction = ''I'm having issues with '' @ lower gotcha_name @ ''. What should I do?'',
      ex_context = ''I'm working on '' @ lower section_name @ '' in my development environment'',
      ex_response = ''For '' @ gotcha_name @ '': '' @ strip solution\<rparr>)"

definition extract_environment_gotchas :: "string \<Rightarrow> example list \<Rightarrow> example list" where
  "extract_environment_gotchas content examples =
     (let gotchas_section = extract_section ''## Environment Gotchas'' content
      in if gotchas_section = [] then examples
         else
           foldl (\<lambda>examples (section_name, content).
                    foldl (\<lambda>examples b. examples @ [gotcha_example section_name b]) examples
                      (findall2 bullet_pattern content))
             examples (findall2 subsection_pattern gotchas_section))"

definition command_example :: "string \<Rightarrow> string list \<Rightarrow> example" where
  "command_example section_name code_blocks =
     (let combined_commands = join ''\<newline>'' code_blocks
      in \<lparr>ex_instruction = ''How do I '' @ lower section_name @ ''?'',
          ex_context = ''I need to execute commands for development environment management'',
          ex_response = ''For '' @ section_name @ '':\<newline>```bash\<newline>'' @ strip combined_commands
                       @ ''\<newline>```''\<rparr>)"

definition extract_critical_commands :: "string \<Rightarrow> example list \<Rightarrow> example list" where
  "extract_critical_commands content examples =
     (let commands_section = extract_section ''## Critical Commands'' content
      in if commands_section = [] then examples
         else
           foldl (\<lambda>examples (section_name, content).
                    (let code_blocks = findall1 code_block_pattern content
                     in if code_blocks \<noteq> []
                        then examples @ [command_example section_name code_blocks]
                        else examples))
             examples (findall2 subsection_pattern commands_section))"

definition lesson_example :: "string \<Rightarrow> string \<times> string \<Rightarrow> example" where
  "lesson_example section_name = (\<lambda>(lesson_name, explanation).
     \<lparr>ex_instruction = ''What should I know about '' @ lower lesson_name @ ''?'',
      ex_context = ''I'm following '' @ lower section_name @ '' methodology'',
      ex_response = lesson_name @ '': '' @ strip explanation\<rparr>)"

definition extract_lessons_learned :: "string \<Rightarrow> example list \<Rightarrow> example list" where
  "extract_lessons_learned content examples =
     (let lessons_section = extract_section ''## Key Lessons Learned'' content
      in if lessons_section = [] then examples
         else
           foldl (\<lambda>examples (section_name, content).
                    foldl (\<lambda>examples b. examples @ [lesson_example section_name b]) examples
                      (findall2 bullet_pattern content))
             examples (findall2 subsection_pattern lessons_section))"

definition credential_example :: "string \<times> string \<Rightarrow> example" where
  "credential_example = (\<lambda>(cred_name, v).
     \<lparr>ex_instruction = ''What are the working authentication credentials?'',
      ex_context = ''I need to access the application for testing'',
      ex_response = cred_name @ '': '' @ strip v\<rparr>)"

definition requirement_example :: "string \<times> string \<Rightarrow> example" where
  "requirement_example = (\<lambda>(req_name, description).
     \<lparr>ex_instruction = ''What are the access requirements for this application?'',
      ex_context = ''I'm setting up access to the application'',
      ex_response = req_name @ '': '' @ strip description\<rparr>)"

definition extract_authentication_info :: "string \<Rightarrow> example list \<Rightarrow> example list" where
  "extract_authentication_info content examples =
     (let auth_section = extract_section ''## Authentication Information'' content
      in if auth_section = [] then examples
         else
           (let creds_section = extract_section ''### Working Credentials'' auth_section;
                examples1 =
                  (if creds_section \<noteq> []
                   then foldl (\<lambda>examples p. examples @ [credential_example p]) examples
                          (findall2 bullet_pattern creds_section)
                   else examples);
                access_section = extract_section ''### Access Requirements'' auth_section
            in if access_section \<noteq> []
               then foldl (\<lambda>examples p. examples @ [requirement_example p]) examples1
                      (findall2 bullet_pattern access_section)
               else examples1))"

definition config_example :: "string \<Rightarrow> (string \<times> string) list \<Rightarrow> example" where
  "config_example section_name env_vars =
     (let env_list = map (\<lambda>(var, v). var @ ''='' @ v) env_vars
      in \<lparr>ex_instruction = ''How do I configure '' @ lower section_name @ ''?'',
          ex_context = ''I'm setting up environment variables for development'',
          ex_response = ''For '' @ section_name @ '', set these environment variables:\<newline>''
                       @ join ''\<newline>'' env_list\<rparr>)"

definition extract_environment_config :: "string \<Rightarrow> example list \<Rightarrow> example list" where
  "extract_environment_config content examples =
     (let config_section = extract_section ''## Environment Configuration'' content
      in if config_section = [] then examples
         else
           foldl (\<lambda>examples (section_name, content).
                    (let env_vars = findall2 env_var_pattern content
                     in if env_vars \<noteq> []
                        then examples @ [config_example section_name env_vars]
                        else examples))
             examples (findall2 subsection_pattern config_section))"

definition extract_all_examples :: "string \<Rightarrow> example list" where
  "extract_all_examples content =
     extract_environment_config content
       (extract_authentication_info content
         (extract_lessons_learned content
           (extract_critical_commands content
             (extract_environment_gotchas content
               (extract_architecture_patterns content [])))))"

text \<open>
  \<open>json.dumps(example, ensure_ascii=False)\<close> for a dictionary with the three keys of an
  example, in the order in which the routines write them. In a string the encoder
  escapes the double quote, the backslash and the characters below U+0020, and leaves
  every other character as it is.
\<close>

definition dquote :: char where
  "dquote = CHR 0x22"

definition backslash :: char where
  "backslash = CHR 0x5C"

definition hex_digit :: "nat \<Rightarrow> char" where
  "hex_digit n = (if n < 10 then char_of (48 + n) else char_of (87 + n))"

definition escape_char :: "char \<Rightarrow> string" where
  "escape_char c =
     (if c = dquote then [backslash, dquote]
      else if c = backslash then [backslash, backslash]
      else if c = CHR 0x0A then [backslash, CHR ''n'']
      else if c = CHR 0x0D then [backslash, CHR ''r'']
      else if c = CHR 0x09 then [backslash, CHR ''t'']
      else if c = CHR 0x08 then [backslash, CHR ''b'']
      else if c = CHR 0x0C then [backslash, CHR ''f'']
      else if (of_char c :: nat) < 32
      then [backslash, CHR ''u'', CHR ''0'', CHR ''0'',
            hex_digit ((of_char c :: nat) div 16), hex_digit ((of_char c :: nat) mod 16)]
      else [c])"

definition dumps_str :: "string \<Rightarrow> string" where
  "dumps_str s = [dquote] @ concat (map escape_char s) @ [dquote]"

definition dumps :: "example \<Rightarrow> string" where
  "dumps e =
     ''{'' @ dumps_str ''instruction'' @ '': '' @ dumps_str (ex_instruction e) @ '', ''
       @ dumps_str ''context'' @ '': '' @ dumps_str (ex_context e) @ '', ''
       @ dumps_str ''response'' @ '': '' @ dumps_str (ex_response e) @ ''}''"

text \<open>\<open>json.dump(examples, f, indent=2, ensure_ascii=False)\<close>.\<close>

definition dumps_indented :: "example \<Rightarrow> string" where
  "dumps_indented e =
     ''  {\<newline>    '' @ dumps_str ''instruction'' @ '': '' @ dumps_str (ex_instruction e)
       @ '',\<newline>    '' @ dumps_str ''context'' @ '': '' @ dumps_str (ex_context e)
       @ '',\<newline>    '' @ dumps_str ''response'' @ '': '' @ dumps_str (ex_response e)
       @ ''\<newline>  }''"

definition dump_list_indented :: "example list \<Rightarrow> string" where
  "dump_list_indented examples =
     (if examples = [] then ''[]''
      else ''[\<newline>'' @ join '',\<newline>'' (map dumps_indented examples) @ ''\<newline>]'')"

text \<open>\<open>str(n)\<close> for a natural number.\<close>

fun str_nat :: "nat \<Rightarrow> string" where
  "str_nat n =
     (if n < 10 then [char_of (48 + n)] else str_nat (n div 10) @ [char_of (48 + n mod 10)])"

declare str_nat.simps [simp del]

text \<open>
  The extractor's surroundings (whether a path exists, what reading the memory file
  gives, whether the output file can be opened) and what the process has done: the
  texts printed and the files written, each with its whole text.
\<close>

record extractor_env =
  file_exists :: "string \<Rightarrow> bool"
  read_text :: "string \<Rightarrow> exn + string"
  open_output :: "string \<Rightarrow> exn option"

record extractor_world =
  printed_texts :: "string list"
  files :: "(string \<times> string) list"


definition say :: "string \<Rightarrow> extractor_world \<Rightarrow> extractor_world" where
  "say text w = w\<lparr>printed_texts := printed_texts w @ [text]\<rparr>"

definition jsonl_text :: "example list \<Rightarrow> string" where
  "jsonl_text examples = foldl (\<lambda>f example. f @ dumps example @ ''\<newline>'') [] examples"

definition save_training_data ::
  "extractor_env \<Rightarrow> example list \<Rightarrow> string \<Rightarrow> string \<Rightarrow> extractor_world
     \<Rightarrow> (exn + unit) \<times> extractor_world" where
  "save_training_data e examples output_file format w =
     (let saved = ''Saved '' @ str_nat (length examples) @ '' training examples to '' @ output_file
      in if format = ''jsonl''
         then (case open_output e output_file of
                 Some ex \<Rightarrow> (Inl ex, w)
               | None \<Rightarrow>
                   (Inr (), say saved (w\<lparr>files := files w @ [(output_file, jsonl_text examples)]\<rparr>)))
         else if format = ''json''
         then (case open_output e output_file of
                 Some ex \<Rightarrow> (Inl ex, w)
               | None \<Rightarrow>
                   (Inr (), say saved
                      (w\<lparr>files := files w @ [(output_file, dump_list_indented examples)]\<rparr>)))
         else (Inr (), say saved w))"


section \<open>Reading line-delimited JSON back\<close>

text \<open>
  Modelled from the spec: the reader of the line-delimited output, which the repository
  does not contain. The spec speaks of reading the serialised examples back; the model
  takes the file line by line, as iterating over a text file does, and parses each
  line as \<open>json.loads\<close> would parse an object whose values are strings: white space
  between the tokens, the escapes of JSON inside a string, no raw control character
  inside a string, nothing but white space after the object. A line gives an example
  when its object has exactly the three keys of an example. An escape \<open>\uXXXX\<close> above
  U+00FF is outside the characters of the model and is refused.
\<close>

fun lines_from :: "string \<Rightarrow> string \<Rightarrow> string list" where
  "lines_from [] cur = (if cur = [] then [] else [cur])"
| "lines_from (x # xs) cur =
     (if x = CHR 0x0A then cur # lines_from xs [] else lines_from xs (cur @ [x]))"

definition hex_val :: "char \<Rightarrow> nat option" where
  "hex_val c =
     (let n = (of_char c :: nat)
      in if 48 \<le> n \<and> n \<le> 57 then Some (n - 48)
         else if 97 \<le> n \<and> n \<le> 102 then Some (n - 87)
         else if 65 \<le> n \<and> n \<le> 70 then Some (n - 55)
         else None)"

definition unicode_escape :: "char \<Rightarrow> char \<Rightarrow> char \<Rightarrow> char \<Rightarrow> char option" where
  "unicode_escape a b c d =
     (case (hex_val a, hex_val b, hex_val c, hex_val d) of
        (Some h3, Some h2, Some h1, Some h0) \<Rightarrow>
          (let code = 4096 * h3 + 256 * h2 + 16 * h1 + h0
           in if code < 256 then Some (char_of code) else None)
      | _ \<Rightarrow> None)"

definition simple_escape :: "char \<Rightarrow> char option" where
  "simple_escape c =
     (if c = dquote then Some dquote
      else if c = backslash then Some backslash
      else if c = CHR ''/'' then Some (CHR ''/'')
      else if c = CHR ''n'' then Some (CHR 0x0A)
      else if c = CHR ''r'' then Some (CHR 0x0D)
      else if c = CHR ''t'' then Some (CHR 0x09)
      else if c = CHR ''b'' then Some (CHR 0x08)
      else if c = CHR ''f'' then Some (CHR 0x0C)
      else None)"

text \<open>The characters of a string after its opening quote: the text read, and the input left.\<close>

fun parse_chars :: "string \<Rightarrow> string \<Rightarrow> (string \<times> string) option" where
  "parse_chars [] acc = None"
| "parse_chars [c] acc = (if c = dquote then Some (acc, []) else None)"
| "parse_chars (c # e # cs) acc =
     (if c = dquote then Some (acc, e # cs)
      else if c = backslash
      then (if e = CHR ''u''
            then (case cs of
                    h3 # h2 # h1 # h0 # rest \<Rightarrow>
                      (case unicode_escape h3 h2 h1 h0 of
                         Some u \<Rightarrow> parse_chars rest (acc @ [u])
                       | None \<Rightarrow> None)
                  | _ \<Rightarrow> None)
            else (case simple_escape e of
                    Some u \<Rightarrow> parse_chars cs (acc @ [u])
                  | None \<Rightarrow> None))
      else if (of_char c :: nat) < 32 then None
      else parse_chars (e # cs) (acc @ [c]))"

definition parse_string :: "string \<Rightarrow> (string \<times> string) option" where
  "parse_string s =
     (case s of [] \<Rightarrow> None | c # cs \<Rightarrow> if c = dquote then parse_chars cs [] else None)"

definition json_space :: "char \<Rightarrow> bool" where
  "json_space c = (c = CHR '' '' \<or> c = CHR 0x09 \<or> c = CHR 0x0A \<or> c = CHR 0x0D)"

definition skip_ws :: "string \<Rightarrow> string" where
  "skip_ws s = dropWhile json_space s"

definition expect :: "char \<Rightarrow> string \<Rightarrow> string option" where
  "expect c s = (case skip_ws s of [] \<Rightarrow> None | x # xs \<Rightarrow> if x = c then Some xs else None)"

text \<open>
  The members of an object after its opening brace, the first key still to come:
  \<open>"key": "value"\<close>, then a comma and the next member or the closing brace. \<open>fuel\<close>
  bounds the number of members by the length of the line.
\<close>

fun parse_members :: "nat \<Rightarrow> string \<Rightarrow> ((string \<times> string) list \<times> string) option" where
  "parse_members 0 s = None"
| "parse_members (Suc fuel) s =
     (case parse_string (skip_ws s) of
        None \<Rightarrow> None
      | Some (k, s1) \<Rightarrow>
          (case expect (CHR '':'') s1 of
             None \<Rightarrow> None
           | Some s2 \<Rightarrow>
               (case parse_string (skip_ws s2) of
                  None \<Rightarrow> None
                | Some (v, s3) \<Rightarrow>
                    (case skip_ws s3 of
                       [] \<Rightarrow> None
                     | x # s4 \<Rightarrow>
                         if x = CHR ''}'' then Some ([(k, v)], s4)
                         else if x = CHR '','' then
                           (case parse_members fuel s4 of
                              None \<Rightarrow> None
                            | Some (m, s5) \<Rightarrow> Some ((k, v) # m, s5))
                         else None))))"

definition parse_object :: "string \<Rightarrow> (string \<times> string) list option" where
  "parse_object s =
     (case expect (CHR ''{'') s of
        None \<Rightarrow> None
      | Some s1 \<Rightarrow>
          (case skip_ws s1 of
             [] \<Rightarrow> None
           | x # s2 \<Rightarrow>
               if x = CHR ''}'' then (if skip_ws s2 = [] then Some [] else None)
               else (case parse_members (length s1) s1 of
                       None \<Rightarrow> None
                     | Some (m, s3) \<Rightarrow> if skip_ws s3 = [] then Some m else None)))"

text \<open>A later member replaces an earlier one with the same key, as in a dictionary.\<close>

definition loads_example :: "string \<Rightarrow> example option" where
  "loads_example line =
     (case parse_object line of
        None \<Rightarrow> None
      | Some m \<Rightarrow>
          (case (map_of (rev m) ''instruction'', map_of (rev m) ''context'',
                 map_of (rev m) ''response'') of
             (Some i, Some c, Some r) \<Rightarrow>
               if set (map fst m) = {''instruction'', ''context'', ''response''}
               then Some \<lparr>ex_instruction = i, ex_context = c, ex_response = r\<rparr>
               else None
           | _ \<Rightarrow> None))"

fun load_all :: "string list \<Rightarrow> example list option" where
  "load_all [] = Some []"
| "load_all (l # ls) =
     (case loads_example l of
        None \<Rightarrow> None
      | Some e \<Rightarrow> (case load_all ls of None \<Rightarrow> None | Some es \<Rightarrow> Some (e # es)))"

definition read_jsonl :: "string \<Rightarrow> example list option" where
  "read_jsonl text = load_all (lines_from text [])"

section \<open>What the claims speak of\<close>

text \<open>
  The section of a document as the specification words it: the text after the first
  occurrence of the heading, up to the next line that starts with \<open>## \<close> or to the end
  of the document; empty when the heading does not occur. \<open>after_first h c\<close> is the
  text after the first occurrence of \<open>h\<close> in \<open>c\<close>, and \<open>before stop s\<close> the part of \<open>s\<close>
  before the first place at which \<open>stop\<close> holds of what is left.
\<close>

fun after_first :: "string \<Rightarrow> string \<Rightarrow> string option" where
  "after_first h [] = (if h = [] then Some [] else None)"
| "after_first h (x # xs) =
     (if starts_with (x # xs) h then Some (drop (length h) (x # xs)) else after_first h xs)"

fun before :: "(string \<Rightarrow> bool) \<Rightarrow> string \<Rightarrow> string" where
  "before stop [] = []"
| "before stop (x # xs) = (if stop (x # xs) then [] else x # before stop xs)"

definition section_as_stated :: "string \<Rightarrow> string \<Rightarrow> string" where
  "section_as_stated header content =
     (case after_first header content of
        None \<Rightarrow> []
      | Some rest \<Rightarrow> before (\<lambda>t. starts_with t ''\<newline>## '') rest)"

text \<open>Where the lookaheads of the section pattern and of the bullet pattern succeed.\<close>

definition section_stop :: "string \<Rightarrow> bool" where
  "section_stop t = (starts_with t ''\<newline>## '' \<or> t = [] \<or> t = ''\<newline>'')"


text \<open>
  The suffixes of a text, longest first, and the results of trying \<open>K\<close> at each of
  them in turn, given the text passed over so far.
\<close>

fun tails :: "'a list \<Rightarrow> 'a list list" where
  "tails [] = [[]]"
| "tails (x # xs) = (x # xs) # tails xs"

fun scan :: "(string \<Rightarrow> string \<Rightarrow> 'a list) \<Rightarrow> string \<Rightarrow> string \<Rightarrow> 'a list" where
  "scan K acc [] = K acc []"
| "scan K acc (x # xs) = K acc (x # xs) @ scan K (acc @ [x]) xs"

text \<open>A document with two sections, for the statements about section lookup.\<close>

definition two_sections :: string where
  "two_sections = ''# Memory\<newline>## A\<newline>foo \<newline>\<newline>## B\<newline>bar\<newline>''"

text \<open>
  Surroundings of the extractor in which every path exists, the memory file has the
  given text and the output can be written; arguments with the defaults of the command
  line; a process that has done nothing yet; and the document of the specification's
  first scenario.
\<close>

definition memory_env :: "string \<Rightarrow> extractor_env" where
  "memory_env content =
     \<lparr>file_exists = (\<lambda>p. True), read_text = (\<lambda>p. Inr content), open_output = (\<lambda>p. None)\<rparr>"


definition fresh_world :: extractor_world where
  "fresh_world = \<lparr>printed_texts = [], files = []\<rparr>"

definition commands_doc :: string where
  "commands_doc = ''## Critical Commands\<newline>### Check Status\<newline>```bash\<newline>npx prisma migrate status\<newline>```\<newline>''"

text \<open>
  A section body made of bullet pairs: each item is a name, a description and the text
  that follows the description, up to the next bullet or to the end. An item is well
  formed when the closing \<open>**: \<close> does not begin inside its name; its description has
  no line break followed by \<open>-\<close> or by another line break, and does not end in a line break;
  what follows the description is a line break alone, or begins with a blank line or
  with a line that starts with \<open>-\<close>, or is empty at the end of the body; and no
  \<open>- **\<close> begins inside what follows. Names and descriptions may be empty.
\<close>

fun bullets_text :: "(string \<times> string \<times> string) list \<Rightarrow> string" where
  "bullets_text [] = []"
| "bullets_text ((n, d, gap) # rest) = ''- **'' @ n @ ''**: '' @ d @ gap @ bullets_text rest"


text \<open>
  A document whose architecture section has three bullet pairs under a subsection
  heading, and a body of two bullets, one with an empty name and one with a description
  of white space only.
\<close>

definition demo_lead :: string where
  "demo_lead = ''### Field Implementation Patterns\<newline>''"

definition demo_items :: "(string \<times> string \<times> string) list" where
  "demo_items =
     [(''Estate Email Pattern'', ''unique,\<newline>  nullable '', ''\<newline>''),
      (''taxId'', ''no constraint'', ''\<newline>\<newline>Notes follow.''),
      (''scanBoxId'', ''display-only'', [])]"

definition demo_document :: string where
  "demo_document =
     ''# Memory\<newline>\<newline>## Architecture Patterns Discovered\<newline>\<newline>'' @ demo_lead
       @ bullets_text demo_items @ ''\<newline>\<newline>## Environment Gotchas\<newline>''"


text \<open>An architecture section whose only bullet stands under the resolver subsection.\<close>

definition resolver_doc :: string where
  "resolver_doc =
     ''## Architecture Patterns Discovered\<newline>### GraphQL Resolver Priority\<newline>- **Both**: registered''"

text \<open>An example with a quote, a backslash, control characters and a letter beyond ASCII.\<close>

definition tricky_example :: example where
  "tricky_example =
     \<lparr>ex_instruction = ''say '' @ [dquote] @ ''hi'' @ [dquote, backslash],
      ex_context = ''two\<newline>lines'' @ [CHR 0x09, CHR 0x01, CHR 0xE9],
      ex_response = []\<rparr>"

text \<open>
  For the statements below: the generation call that a test case causes under a model
  type, what a result keeps of its test case, and the mean of a list of scores.
\<close>

definition call_of :: "string \<Rightarrow> test_case \<Rightarrow> model \<times> string" where
  "call_of model_type tc = (model_of model_type, prompt_of (tc_question tc) (tc_context tc))"

definition case_fields :: "test_case \<Rightarrow> string \<times> string \<times> string list \<times> string" where
  "case_fields tc = (tc_category tc, tc_question tc, tc_expected_keywords tc, tc_difficulty tc)"

definition result_fields :: "eval_result \<Rightarrow> string \<times> string \<times> string list \<times> string" where
  "result_fields r = (res_category r, res_question r, res_expected_keywords r, res_difficulty r)"

definition mean :: "rat list \<Rightarrow> rat" where
  "mean xs = sum_list xs / of_nat (length xs)"

definition result_with_score :: "rat \<Rightarrow> eval_result" where
  "result_with_score x =
     \<lparr>res_category = ''Authentication'', res_question = ''q'', res_response = ''r'',
      res_expected_keywords = [], res_matched_keywords = [], res_matches = 0,
      res_total_keywords = 0, res_score = x, res_difficulty = ''easy'',
      res_model_type = ''base_model''\<rparr>"

text \<open>
  A small run for the statements below: surroundings in which everything exists, every
  load and every write succeeds and generation echoes its prompt; and a process that
  has done nothing yet.
\<close>

definition echo_env :: env where
  "echo_env =
     \<lparr>path_exists = (\<lambda>p. True),
      load_models = (\<lambda>b f. None),
      generate = (\<lambda>calls m prompt. Inr prompt),
      open_for_writing = (\<lambda>f. None)\<rparr>"

definition no_model_env :: env where
  "no_model_env = echo_env\<lparr>path_exists := (\<lambda>p. False)\<rparr>"

definition new_world :: world where
  "new_world = \<lparr>stdout = [], gen_calls = [], written = []\<rparr>"

definition npx_case :: test_case where
  "npx_case =
     \<lparr>tc_category = ''Critical Commands'',
      tc_question = ''npx?'',
      tc_expected_keywords = [''npx'', ''pkill''],
      tc_context = ''c'',
      tc_difficulty = ''easy''\<rparr>"

definition some_args :: args where
  "some_args =
     \<lparr>arg_base_model = ''base'', arg_fine_tuned_model = ''./model'',
      arg_output = ''evaluation_results.json'', arg_no_comparison = False\<rparr>"

section \<open>The model on examples\<close>

text \<open>
  Values of the string operations, of keyword scoring and of the patterns on small
  inputs; each is the value that Python gives for the same input.
\<close>

lemma string_examples:
  "strip ([CHR 0x1C] @ '' a'' @ [CHR 0x85, CHR 0xA0]) = ''a''"
  "lower [CHR 0xC0, CHR 0xDE, CHR 0xD7, CHR 0xDF, CHR 0xFF, CHR ''Q'']
     = [CHR 0xE0, CHR 0xFE, CHR 0xD7, CHR 0xDF, CHR 0xFF, CHR ''q'']"
  "split ''XX'' ''aXXXbXXc'' = [''a'', ''Xb'', ''c'']"
  "evaluate_keywords ''Use NPX and Prisma Migrate Status''
       [''npx'', ''pkill'', ''prisma migrate status'']
     = (2, 2 / 3, [''npx'', ''prisma migrate status''])"
  by code_simp+

lemma pattern_examples:
  "findall2 bullet_pattern ''- **a**: x y\<newline>- ****: \<newline>- **c**: z\<newline>''
     = [(''a'', ''x y''), ([], []), (''c'', ''z'')]"
  "findall2 bullet_pattern ''- **a***: d'' = [(''a*'', ''d'')]"
  "findall2 subsection_pattern ''### A\<newline>x\<newline>### B\<newline>\<newline>### C'' = [(''A'', ''x''), (''B'', [])]"
  "findall1 code_block_pattern ''x ```bash\<newline>npx prisma\<newline>``` ```bash\<newline>\<newline>```''
     = [''npx prisma'', []]"
  "findall2 env_var_pattern ''xAB_C=12=3\<newline>A=\<newline>B=1'' = [(''AB_C'', ''12=3''), (''B'', ''1'')]"
  "findall1 (Alt (Group 1 (Chr (CHR ''a''))) Eps) ''baac'' = [[], ''a'', ''a'', [], []]"
  "extract_section [] ''abc\<newline>## d'' = ''abc''"
  "extract_section ''## A'' ''x## A \<newline>\<newline> foo\<newline>'' = ''foo''"
  by code_simp+

section \<open>Properties of keyword scoring\<close>

lemma starts_with_iff: "starts_with s p \<longleftrightarrow> prefix p s"
  by (induction s p rule: starts_with.induct) auto

lemma in_str_iff: "in_str a b \<longleftrightarrow> (\<exists>ps ss. b = ps @ a @ ss)"
proof (induction b)
  case Nil
  then show ?case by auto
next
  case (Cons x xs)
  show ?case
  proof
    assume "in_str a (x # xs)"
    then consider "prefix a (x # xs)" | "in_str a xs"
      by (auto simp: starts_with_iff)
    then show "\<exists>ps ss. x # xs = ps @ a @ ss"
    proof cases
      case 1
      then obtain ss where "x # xs = a @ ss" by (auto simp: prefix_def)
      then have "x # xs = [] @ a @ ss" by simp
      then show ?thesis by blast
    next
      case 2
      with Cons obtain ps ss where "xs = ps @ a @ ss" by blast
      then have "x # xs = (x # ps) @ a @ ss" by simp
      then show ?thesis by blast
    qed
  next
    assume "\<exists>ps ss. x # xs = ps @ a @ ss"
    then obtain ps ss where e: "x # xs = ps @ a @ ss" by blast
    show "in_str a (x # xs)"
    proof (cases ps)
      case Nil
      with e have "prefix a (x # xs)" by (simp add: prefix_def)
      then show ?thesis by (simp add: starts_with_iff)
    next
      case (Cons y ys)
      with e have "xs = ys @ a @ ss" by simp
      with Cons.IH have "in_str a xs" by blast
      then show ?thesis by simp
    qed
  qed
qed

lemma keyword_loop_filter:
  "keyword_loop rl ks acc = acc @ filter (\<lambda>k. in_str (lower k) rl) ks"
  by (induction ks arbitrary: acc) auto

text \<open>
  Claim C3. For every response and every list of expected keywords, a keyword counts
  exactly when its lower-cased form occurs as a substring of the lower-cased response;
  the score is the number of keywords found divided by the number of expected keywords,
  and it is 0, with no division at all, when the list of expected keywords is empty.
\<close>

theorem evaluate_keywords_score:
  "evaluate_keywords response expected_keywords =
     (let found = filter (\<lambda>k. \<exists>ps ss. lower response = ps @ lower k @ ss) expected_keywords
      in (length found,
          (if expected_keywords = [] then 0
           else of_nat (length found) / of_nat (length expected_keywords)),
          found))
   \<and> evaluate_keywords response [] = (0, 0, [])"
  by (simp add: evaluate_keywords_def keyword_loop_filter in_str_iff Let_def)

text \<open>
  Claim C9. For every response and every list of expected keywords, the score lies
  between 0 and 1, the match count is the length of the list of matched keywords, and
  the matched keywords are a subsequence of the expected keywords, each in its original
  spelling and in the original order.
\<close>

theorem evaluate_keywords_invariants:
  "(case evaluate_keywords response expected_keywords of
      (matches, score, matched_keywords) \<Rightarrow>
        0 \<le> score \<and> score \<le> 1 \<and> matches = length matched_keywords
        \<and> subseq matched_keywords expected_keywords)"
proof -
  let ?found = "filter (\<lambda>k. in_str (lower k) (lower response)) expected_keywords"
  have "length ?found \<le> length expected_keywords" by simp
  then have "(of_nat (length ?found) :: rat) \<le> of_nat (length expected_keywords)"
    by (simp only: of_nat_le_iff)
  then have "(of_nat (length ?found) :: rat) / of_nat (length expected_keywords) \<le> 1"
    by (simp add: divide_le_eq_1)
  then show ?thesis
    by (simp add: evaluate_keywords_def keyword_loop_filter Let_def)
qed

section \<open>Properties of the summary\<close>

lemma add_score_nonempty:
  "\<forall>(k, v) \<in> set m. v \<noteq> [] \<Longrightarrow> \<forall>(k, v) \<in> set (add_score c s m). v \<noteq> []"
  by (induction c s m rule: add_score.induct) auto

lemma collect_scores_nonempty:
  "\<forall>(k, v) \<in> set m. v \<noteq> [] \<Longrightarrow> \<forall>(k, v) \<in> set (collect_scores rs m). v \<noteq> []"
proof (induction rs arbitrary: m)
  case Nil
  then show ?case by simp
next
  case (Cons r rs)
  from Cons.prems have "\<forall>(k, v) \<in> set (add_score (res_category r) (res_score r) m). v \<noteq> []"
    by (rule add_score_nonempty)
  then show ?case using Cons.IH by simp
qed

lemma category_averages_defined:
  "\<forall>(k, v) \<in> set m. v \<noteq> [] \<Longrightarrow> \<exists>m'. category_averages m = Inr m'"
  by (induction m rule: category_averages.induct) (auto simp: py_div_def)

lemma calculate_category_scores_defined: "\<exists>cs. calculate_category_scores rs = Inr cs"
  unfolding calculate_category_scores_def
  by (rule category_averages_defined, rule collect_scores_nonempty) simp

lemma summarise_nonempty:
  assumes "rs \<noteq> []"
  shows "\<exists>m. summarise rs = Inr m
           \<and> average_score m = sum_list (map res_score rs) / of_nat (length rs)"
proof -
  obtain cs where "calculate_category_scores rs = Inr cs"
    using calculate_category_scores_defined by blast
  with assms show ?thesis
    by (simp add: summarise_def py_div_def Let_def)
qed

lemma summarise_empty: "summarise [] = Inl ZeroDivisionError"
  by (simp add: summarise_def py_div_def)

lemma calculate_summary_nonempty:
  assumes "fine_tuned rs \<noteq> []" and "base_model rs \<noteq> []"
  shows "\<exists>ft bm. summarise (fine_tuned rs) = Inr ft \<and> summarise (base_model rs) = Inr bm
           \<and> average_score ft = sum_list (map res_score (fine_tuned rs)) / of_nat (length (fine_tuned rs))
           \<and> average_score bm = sum_list (map res_score (base_model rs)) / of_nat (length (base_model rs))
           \<and> calculate_summary rs =
               Inr \<lparr>sum_fine_tuned = ft, sum_base_model = bm,
                    sum_improvement =
                      \<lparr>score_improvement = average_score ft - average_score bm,
                       percentage_improvement =
                         (if average_score bm > 0
                          then (average_score ft - average_score bm) / average_score bm * 100 else 0),
                       better_performance = (average_score ft > average_score bm)\<rparr>\<rparr>"
proof -
  from summarise_nonempty [OF assms(1)] obtain ft where
    ft: "summarise (fine_tuned rs) = Inr ft"
        "average_score ft = sum_list (map res_score (fine_tuned rs)) / of_nat (length (fine_tuned rs))"
    by blast
  from summarise_nonempty [OF assms(2)] obtain bm where
    bm: "summarise (base_model rs) = Inr bm"
        "average_score bm = sum_list (map res_score (base_model rs)) / of_nat (length (base_model rs))"
    by blast
  from ft bm show ?thesis
    by (simp add: calculate_summary_def Let_def)
qed




section \<open>Properties of a run of the evaluator\<close>

lemma generate_response_world:
  "snd (generate_response e q c mt w) = w\<lparr>gen_calls := gen_calls w @ [(model_of mt, prompt_of q c)]\<rparr>"
  by (simp add: generate_response_def Let_def split: sum.splits)

lemma evaluate_test_case_world:
  "snd (evaluate_test_case e tc mt w) = w\<lparr>gen_calls := gen_calls w @ [call_of mt tc]\<rparr>"
proof -
  have "snd (evaluate_test_case e tc mt w)
          = snd (generate_response e (tc_question tc) (tc_context tc) mt w)"
    by (simp add: evaluate_test_case_def split: prod.splits sum.splits)
  then show ?thesis by (simp add: generate_response_world call_of_def)
qed

lemma evaluate_test_case_ok:
  assumes "\<forall>calls m p. \<exists>t. generate e calls m p = Inr t"
  shows "\<exists>r. fst (evaluate_test_case e tc mt w) = Inr r \<and> result_fields r = case_fields tc
             \<and> res_model_type r = mt"
proof -
  obtain t where "generate e (gen_calls w) (model_of mt) (prompt_of (tc_question tc) (tc_context tc)) = Inr t"
    using assms by blast
  then show ?thesis
    by (simp add: evaluate_test_case_def generate_response_def Let_def result_fields_def
        case_fields_def split: prod.splits)
qed

lemma evaluation_pass_ok:
  assumes "\<forall>calls m p. \<exists>t. generate e calls m p = Inr t"
  shows "\<exists>rs. evaluation_pass e mt tcs acc w =
            (Inr (acc @ rs), w\<lparr>gen_calls := gen_calls w @ map (call_of mt) tcs\<rparr>)
          \<and> map result_fields rs = map case_fields tcs
          \<and> (\<forall>r \<in> set rs. res_model_type r = mt)"
proof (induction tcs arbitrary: acc w)
  case Nil
  then show ?case by simp
next
  case (Cons tc tcs)
  obtain r where r: "fst (evaluate_test_case e tc mt w) = Inr r"
      "result_fields r = case_fields tc" "res_model_type r = mt"
    using evaluate_test_case_ok [OF assms] by blast
  define w' where "w' = w\<lparr>gen_calls := gen_calls w @ [call_of mt tc]\<rparr>"
  have step: "evaluate_test_case e tc mt w = (Inr r, w')"
    using r(1) evaluate_test_case_world [of e tc mt w] unfolding w'_def
    by (cases "evaluate_test_case e tc mt w") simp
  obtain rs where rs: "evaluation_pass e mt tcs (acc @ [r]) w' =
            (Inr ((acc @ [r]) @ rs), w'\<lparr>gen_calls := gen_calls w' @ map (call_of mt) tcs\<rparr>)"
          "map result_fields rs = map case_fields tcs"
          "\<forall>r \<in> set rs. res_model_type r = mt"
    using Cons.IH by blast
  have "evaluation_pass e mt (tc # tcs) acc w =
            (Inr (acc @ (r # rs)), w\<lparr>gen_calls := gen_calls w @ map (call_of mt) (tc # tcs)\<rparr>)"
    using step rs(1) by (simp add: w'_def)
  moreover have "map result_fields (r # rs) = map case_fields (tc # tcs)"
    using r(2) rs(2) by simp
  moreover have "\<forall>x \<in> set (r # rs). res_model_type x = mt"
    using r(3) rs(3) by simp
  ultimately show ?case by blast
qed


lemma run_evaluation_ok:
  assumes gen: "\<forall>calls m p. \<exists>t. generate e calls m p = Inr t"
    and tcs: "tcs = (case test_cases_arg of None \<Rightarrow> create_evaluation_tests | Some l \<Rightarrow> l)"
    and ne: "tcs \<noteq> []"
  shows "\<exists>ft bm s. run_evaluation e test_cases_arg w =
            (Inr \<lparr>fine_tuned = ft, base_model = bm, summary = Some s\<rparr>,
             w\<lparr>stdout := stdout w @ [Line ''Running evaluation on fine-tuned model...'',
                                      Line ''Running evaluation on base model for comparison...''],
               gen_calls := gen_calls w @ map (call_of ''fine_tuned'') tcs
                              @ map (call_of ''base_model'') tcs\<rparr>)
          \<and> calculate_summary \<lparr>fine_tuned = ft, base_model = bm, summary = None\<rparr> = Inr s
          \<and> map result_fields ft = map case_fields tcs
          \<and> map result_fields bm = map case_fields tcs
          \<and> (\<forall>r \<in> set ft. res_model_type r = ''fine_tuned'')
          \<and> (\<forall>r \<in> set bm. res_model_type r = ''base_model'')"
proof -
  define w1 where "w1 = print ''Running evaluation on fine-tuned model...'' w"
  obtain ft where ft: "evaluation_pass e ''fine_tuned'' tcs [] w1 =
            (Inr ([] @ ft), w1\<lparr>gen_calls := gen_calls w1 @ map (call_of ''fine_tuned'') tcs\<rparr>)"
      "map result_fields ft = map case_fields tcs"
      "\<forall>r \<in> set ft. res_model_type r = ''fine_tuned''"
    using evaluation_pass_ok [OF gen] by blast
  define w2 where "w2 = w1\<lparr>gen_calls := gen_calls w1 @ map (call_of ''fine_tuned'') tcs\<rparr>"
  define w3 where "w3 = print ''Running evaluation on base model for comparison...'' w2"
  obtain bm where bm: "evaluation_pass e ''base_model'' tcs [] w3 =
            (Inr ([] @ bm), w3\<lparr>gen_calls := gen_calls w3 @ map (call_of ''base_model'') tcs\<rparr>)"
      "map result_fields bm = map case_fields tcs"
      "\<forall>r \<in> set bm. res_model_type r = ''base_model''"
    using evaluation_pass_ok [OF gen] by blast
  define w4 where "w4 = w3\<lparr>gen_calls := gen_calls w3 @ map (call_of ''base_model'') tcs\<rparr>"
  have "length ft = length tcs" "length bm = length tcs"
    using ft(2) bm(2) by (metis length_map)+
  with ne have "ft \<noteq> []" "bm \<noteq> []" by auto
  then obtain s where s: "calculate_summary \<lparr>fine_tuned = ft, base_model = bm, summary = None\<rparr> = Inr s"
    using calculate_summary_nonempty [of "\<lparr>fine_tuned = ft, base_model = bm, summary = None\<rparr>"]
    by auto
  have run: "run_evaluation e test_cases_arg w =
      (Inr \<lparr>fine_tuned = ft, base_model = bm, summary = Some s\<rparr>, w4)"
    using ft(1) bm(1) s
    by (simp add: run_evaluation_def Let_def tcs [symmetric] w1_def [symmetric]
        w2_def [symmetric] w3_def [symmetric] w4_def [symmetric])
  have w4: "w4 = w\<lparr>stdout := stdout w @ [Line ''Running evaluation on fine-tuned model...'',
                                      Line ''Running evaluation on base model for comparison...''],
               gen_calls := gen_calls w @ map (call_of ''fine_tuned'') tcs
                              @ map (call_of ''base_model'') tcs\<rparr>"
    by (simp add: w4_def w3_def w2_def w1_def print_def)
  show ?thesis
    using run s ft(2,3) bm(2,3) unfolding w4 by blast
qed

lemma main_ignores_flag: "main e (a\<lparr>arg_no_comparison := flag\<rparr>) w = main e a w"
  by (simp add: main_def split: option.splits prod.splits sum.splits)

lemma evaluation_pass_calls:
  "\<exists>k \<le> length tcs.
      gen_calls (snd (evaluation_pass e mt tcs acc w)) = gen_calls w @ map (call_of mt) (take k tcs)
      \<and> ((\<exists>rs. fst (evaluation_pass e mt tcs acc w) = Inr rs) \<longrightarrow> k = length tcs)"
proof (induction tcs arbitrary: acc w)
  case Nil
  then show ?case by simp
next
  case (Cons tc tcs)
  define w' where "w' = w\<lparr>gen_calls := gen_calls w @ [call_of mt tc]\<rparr>"
  have w': "snd (evaluate_test_case e tc mt w) = w'"
    unfolding w'_def by (rule evaluate_test_case_world)
  show ?case
  proof (cases "fst (evaluate_test_case e tc mt w)")
    case (Inl ex)
    then have "evaluate_test_case e tc mt w = (Inl ex, w')"
      using w' by (cases "evaluate_test_case e tc mt w") simp
    then have "evaluation_pass e mt (tc # tcs) acc w = (Inl ex, w')" by simp
    then have "gen_calls (snd (evaluation_pass e mt (tc # tcs) acc w))
                 = gen_calls w @ map (call_of mt) (take 1 (tc # tcs))
               \<and> ((\<exists>rs. fst (evaluation_pass e mt (tc # tcs) acc w) = Inr rs)
                    \<longrightarrow> 1 = length (tc # tcs))"
      by (simp add: w'_def)
    moreover have "1 \<le> length (tc # tcs)" by simp
    ultimately show ?thesis by blast
  next
    case (Inr r)
    then have step: "evaluate_test_case e tc mt w = (Inr r, w')"
      using w' by (cases "evaluate_test_case e tc mt w") simp
    from Cons.IH [of "acc @ [r]" w'] obtain k where k: "k \<le> length tcs"
      "gen_calls (snd (evaluation_pass e mt tcs (acc @ [r]) w'))
         = gen_calls w' @ map (call_of mt) (take k tcs)"
      "(\<exists>rs. fst (evaluation_pass e mt tcs (acc @ [r]) w') = Inr rs) \<longrightarrow> k = length tcs"
      by blast
    have eq: "evaluation_pass e mt (tc # tcs) acc w = evaluation_pass e mt tcs (acc @ [r]) w'"
      using step by simp
    have "gen_calls (snd (evaluation_pass e mt (tc # tcs) acc w))
                 = gen_calls w @ map (call_of mt) (take (Suc k) (tc # tcs))"
      unfolding eq k(2) by (simp add: w'_def)
    moreover have "(\<exists>rs. fst (evaluation_pass e mt (tc # tcs) acc w) = Inr rs)
                    \<longrightarrow> Suc k = length (tc # tcs)"
      unfolding eq using k(3) by simp
    moreover have "Suc k \<le> length (tc # tcs)" using k(1) by simp
    ultimately show ?thesis by blast
  qed
qed

lemma run_evaluation_calls:
  assumes "tcs = (case test_cases_arg of None \<Rightarrow> create_evaluation_tests | Some l \<Rightarrow> l)"
  shows "\<exists>k \<le> 2 * length tcs.
      gen_calls (snd (run_evaluation e test_cases_arg w))
        = gen_calls w
            @ take k (map (call_of ''fine_tuned'') tcs @ map (call_of ''base_model'') tcs)"
proof -
  define w1 where "w1 = print ''Running evaluation on fine-tuned model...'' w"
  have g1: "gen_calls w1 = gen_calls w" by (simp add: w1_def print_def)
  obtain r1 w2 where p1: "evaluation_pass e ''fine_tuned'' tcs [] w1 = (r1, w2)"
    by (cases "evaluation_pass e ''fine_tuned'' tcs [] w1") auto
  from evaluation_pass_calls [of tcs e "''fine_tuned''" "[]" w1] p1 g1
  obtain k1 where k1: "k1 \<le> length tcs"
    "gen_calls w2 = gen_calls w @ map (call_of ''fine_tuned'') (take k1 tcs)"
    "(\<exists>rs. r1 = Inr rs) \<longrightarrow> k1 = length tcs"
    by auto
  show ?thesis
  proof (cases r1)
    case (Inl ex)
    then have "run_evaluation e test_cases_arg w = (Inl ex, w2)"
      using p1 by (simp add: run_evaluation_def assms [symmetric] w1_def [symmetric])
    then have "gen_calls (snd (run_evaluation e test_cases_arg w))
        = gen_calls w
            @ take k1 (map (call_of ''fine_tuned'') tcs @ map (call_of ''base_model'') tcs)"
      using k1(1,2) by (simp add: take_map)
    moreover have "k1 \<le> 2 * length tcs" using k1(1) by simp
    ultimately show ?thesis by blast
  next
    case (Inr ft)
    with k1 have full: "gen_calls w2 = gen_calls w @ map (call_of ''fine_tuned'') tcs"
      by simp
    define w3 where "w3 = print ''Running evaluation on base model for comparison...'' w2"
    have g3: "gen_calls w3 = gen_calls w2" by (simp add: w3_def print_def)
    obtain r2 w4 where p2: "evaluation_pass e ''base_model'' tcs [] w3 = (r2, w4)"
      by (cases "evaluation_pass e ''base_model'' tcs [] w3") auto
    from evaluation_pass_calls [of tcs e "''base_model''" "[]" w3] p2 g3
    obtain k2 where k2: "k2 \<le> length tcs"
      "gen_calls w4 = gen_calls w2 @ map (call_of ''base_model'') (take k2 tcs)"
      by auto
    have "snd (run_evaluation e test_cases_arg w) = w4"
      using p1 p2 Inr
      by (simp add: run_evaluation_def assms [symmetric] w1_def [symmetric] w3_def [symmetric]
          Let_def split: sum.splits)
    then have "gen_calls (snd (run_evaluation e test_cases_arg w))
        = gen_calls w
            @ take (length tcs + k2)
                (map (call_of ''fine_tuned'') tcs @ map (call_of ''base_model'') tcs)"
      using k2 full by (simp add: take_map)
    moreover have "length tcs + k2 \<le> 2 * length tcs" using k2(1) by simp
    ultimately show ?thesis by blast
  qed
qed

lemma create_evaluation_tests_nonempty: "create_evaluation_tests \<noteq> []"
  by (simp add: create_evaluation_tests_def)

lemma main_success:
  assumes "path_exists e (arg_fine_tuned_model a)"
    and "load_models e (arg_base_model a) (arg_fine_tuned_model a) = None"
    and "\<forall>calls m p. \<exists>t. generate e calls m p = Inr t"
    and "open_for_writing e (arg_output a) = None"
  shows "fst (main e a w) = 0
       \<and> gen_calls (snd (main e a w))
           = gen_calls w @ map (call_of ''fine_tuned'') create_evaluation_tests
               @ map (call_of ''base_model'') create_evaluation_tests"
proof -
  have tcs: "create_evaluation_tests
      = (case None of None \<Rightarrow> create_evaluation_tests | Some l \<Rightarrow> l)" by simp
  from run_evaluation_ok [OF assms(3) tcs create_evaluation_tests_nonempty, of w]
  obtain ft bm s where
    "run_evaluation e None w =
            (Inr \<lparr>fine_tuned = ft, base_model = bm, summary = Some s\<rparr>,
             w\<lparr>stdout := stdout w @ [Line ''Running evaluation on fine-tuned model...'',
                                      Line ''Running evaluation on base model for comparison...''],
               gen_calls := gen_calls w @ map (call_of ''fine_tuned'') create_evaluation_tests
                              @ map (call_of ''base_model'') create_evaluation_tests\<rparr>)"
    by blast
  with assms(1,2,4) show ?thesis
    by (simp add: main_def save_results_def print_evaluation_report_def)
qed

text \<open>
  Claim C6. In every run, the generation calls made are an initial part of the calls of
  the whole list of test cases (the fixed list when none is given) for the fine-tuned
  model followed by those of the whole list for the base model. When no generation call
  raises and the list is not empty, all of these calls are made, and the run returns two
  result lists as long as the list of test cases, each result carrying the fields of the
  test case at its position; \<open>main\<close> then makes both passes over the fixed list and
  returns 0 when loading and saving succeed. The value of the \<open>--no-comparison\<close> flag
  changes nothing in what \<open>main\<close> does.
\<close>

theorem run_evaluation_two_passes:
  assumes "tcs = (case test_cases_arg of None \<Rightarrow> create_evaluation_tests | Some l \<Rightarrow> l)"
  shows "(\<exists>k \<le> 2 * length tcs.
            gen_calls (snd (run_evaluation e test_cases_arg w))
              = gen_calls w
                  @ take k (map (call_of ''fine_tuned'') tcs @ map (call_of ''base_model'') tcs))
   \<and> ((\<forall>calls m p. \<exists>t. generate e calls m p = Inr t) \<and> tcs \<noteq> [] \<longrightarrow>
        (\<exists>ft bm s. run_evaluation e test_cases_arg w =
            (Inr \<lparr>fine_tuned = ft, base_model = bm, summary = Some s\<rparr>,
             w\<lparr>stdout := stdout w @ [Line ''Running evaluation on fine-tuned model...'',
                                      Line ''Running evaluation on base model for comparison...''],
               gen_calls := gen_calls w @ map (call_of ''fine_tuned'') tcs
                              @ map (call_of ''base_model'') tcs\<rparr>)
          \<and> length ft = length tcs \<and> length bm = length tcs
          \<and> map result_fields ft = map case_fields tcs
          \<and> map result_fields bm = map case_fields tcs
          \<and> (\<forall>r \<in> set ft. res_model_type r = ''fine_tuned'')
          \<and> (\<forall>r \<in> set bm. res_model_type r = ''base_model'')))
   \<and> ((\<forall>calls m p. \<exists>t. generate e calls m p = Inr t)
        \<and> path_exists e (arg_fine_tuned_model a)
        \<and> load_models e (arg_base_model a) (arg_fine_tuned_model a) = None
        \<and> open_for_writing e (arg_output a) = None \<longrightarrow>
        fst (main e a w) = 0
        \<and> gen_calls (snd (main e a w))
            = gen_calls w @ map (call_of ''fine_tuned'') create_evaluation_tests
                @ map (call_of ''base_model'') create_evaluation_tests)
   \<and> main e (a\<lparr>arg_no_comparison := flag\<rparr>) w = main e a w"
proof (intro conjI impI)
  show "\<exists>k \<le> 2 * length tcs.
            gen_calls (snd (run_evaluation e test_cases_arg w))
              = gen_calls w
                  @ take k (map (call_of ''fine_tuned'') tcs @ map (call_of ''base_model'') tcs)"
    using assms by (rule run_evaluation_calls)
next
  assume a: "(\<forall>calls m p. \<exists>t. generate e calls m p = Inr t) \<and> tcs \<noteq> []"
  then have gen: "\<forall>calls m p. \<exists>t. generate e calls m p = Inr t" and ne: "tcs \<noteq> []"
    by blast+
  from run_evaluation_ok [OF gen assms ne] obtain ft bm s where r:
    "run_evaluation e test_cases_arg w =
            (Inr \<lparr>fine_tuned = ft, base_model = bm, summary = Some s\<rparr>,
             w\<lparr>stdout := stdout w @ [Line ''Running evaluation on fine-tuned model...'',
                                      Line ''Running evaluation on base model for comparison...''],
               gen_calls := gen_calls w @ map (call_of ''fine_tuned'') tcs
                              @ map (call_of ''base_model'') tcs\<rparr>)"
    "map result_fields ft = map case_fields tcs"
    "map result_fields bm = map case_fields tcs"
    "\<forall>r \<in> set ft. res_model_type r = ''fine_tuned''"
    "\<forall>r \<in> set bm. res_model_type r = ''base_model''"
    by blast
  have "length ft = length tcs" "length bm = length tcs"
    using r(2,3) by (metis length_map)+
  with r show "\<exists>ft bm s. run_evaluation e test_cases_arg w =
            (Inr \<lparr>fine_tuned = ft, base_model = bm, summary = Some s\<rparr>,
             w\<lparr>stdout := stdout w @ [Line ''Running evaluation on fine-tuned model...'',
                                      Line ''Running evaluation on base model for comparison...''],
               gen_calls := gen_calls w @ map (call_of ''fine_tuned'') tcs
                              @ map (call_of ''base_model'') tcs\<rparr>)
          \<and> length ft = length tcs \<and> length bm = length tcs
          \<and> map result_fields ft = map case_fields tcs
          \<and> map result_fields bm = map case_fields tcs
          \<and> (\<forall>r \<in> set ft. res_model_type r = ''fine_tuned'')
          \<and> (\<forall>r \<in> set bm. res_model_type r = ''base_model'')"
    by blast
next
  assume m: "(\<forall>calls m p. \<exists>t. generate e calls m p = Inr t)
        \<and> path_exists e (arg_fine_tuned_model a)
        \<and> load_models e (arg_base_model a) (arg_fine_tuned_model a) = None
        \<and> open_for_writing e (arg_output a) = None"
  then have ok: "fst (main e a w) = 0
        \<and> gen_calls (snd (main e a w))
            = gen_calls w @ map (call_of ''fine_tuned'') create_evaluation_tests
                @ map (call_of ''base_model'') create_evaluation_tests"
    using main_success by blast
  from ok show "fst (main e a w) = 0" by blast
  from ok show "gen_calls (snd (main e a w))
            = gen_calls w @ map (call_of ''fine_tuned'') create_evaluation_tests
                @ map (call_of ''base_model'') create_evaluation_tests" by blast
next
  show "main e (a\<lparr>arg_no_comparison := flag\<rparr>) w = main e a w"
    by (rule main_ignores_flag)
qed

theorem run_evaluation_two_passes_witness:
  "(\<exists>ft bm s. run_evaluation echo_env (Some [npx_case]) new_world =
      (Inr \<lparr>fine_tuned = ft, base_model = bm, summary = Some s\<rparr>,
       \<lparr>stdout = [Line ''Running evaluation on fine-tuned model...'',
                 Line ''Running evaluation on base model for comparison...''],
        gen_calls = [call_of ''fine_tuned'' npx_case, call_of ''base_model'' npx_case],
        written = []\<rparr>)
    \<and> length ft = 1 \<and> length bm = 1)
   \<and> fst (main echo_env some_args new_world) = 0
   \<and> length (gen_calls (snd (main echo_env some_args new_world))) = 24
   \<and> main echo_env (some_args\<lparr>arg_no_comparison := True\<rparr>) new_world
        = main echo_env some_args new_world"
  using run_evaluation_two_passes [where e = echo_env and tcs = "[npx_case]"
      and test_cases_arg = "Some [npx_case]" and w = new_world and a = some_args and flag = True]
  by (auto simp: echo_env_def new_world_def create_evaluation_tests_def)

text \<open>
  Claim C7. When the path of the fine-tuned model does not exist, \<open>main\<close> exits with
  status 1 after printing one line, an error that names the path; no generation call is
  made and no file is written.
\<close>

theorem main_missing_model_directory:
  assumes "\<not> path_exists e (arg_fine_tuned_model a)"
  shows "\<exists>message. main e a w = (1, w\<lparr>stdout := stdout w @ [Line message]\<rparr>)
           \<and> message = ''Error: Fine-tuned model directory '' @ quote @ arg_fine_tuned_model a
                          @ quote @ '' not found''
           \<and> in_str (arg_fine_tuned_model a) message
           \<and> gen_calls (snd (main e a w)) = gen_calls w
           \<and> written (snd (main e a w)) = written w"
proof -
  have "in_str (arg_fine_tuned_model a)
          (''Error: Fine-tuned model directory '' @ quote @ arg_fine_tuned_model a
             @ quote @ '' not found'')"
    unfolding in_str_iff
    by (rule exI [of _ "''Error: Fine-tuned model directory '' @ quote"],
        rule exI [of _ "quote @ '' not found''"]) simp
  with assms show ?thesis
    by (simp add: main_def print_def)
qed

theorem main_missing_model_directory_witness:
  "main no_model_env some_args new_world =
     (1, \<lparr>stdout = [Line (''Error: Fine-tuned model directory '' @ quote @ ''./model'' @ quote
                           @ '' not found'')],
          gen_calls = [], written = []\<rparr>)"
  using main_missing_model_directory [where e = no_model_env and a = some_args and w = new_world]
  by (auto simp: no_model_env_def echo_env_def some_args_def new_world_def)

text \<open>
  Claim C10. For a non-empty list of results the average score of a model's summary is
  defined, and it is the sum of the scores divided by their number; for the empty list
  the division raises \<open>ZeroDivisionError\<close>. So a run over a non-empty list of test cases
  in which no generation call raises ends with both averages, and a run over the empty
  list ends with that exception.
\<close>

theorem average_score_defined:
  "(rs \<noteq> [] \<longrightarrow>
      (\<exists>m. summarise rs = Inr m \<and> average_score m = mean (map res_score rs)))
   \<and> summarise [] = Inl ZeroDivisionError
   \<and> ((\<forall>calls m p. \<exists>t. generate e calls m p = Inr t) \<and> tcs \<noteq> [] \<longrightarrow>
        (\<exists>ft bm s. fst (run_evaluation e (Some tcs) w)
                      = Inr \<lparr>fine_tuned = ft, base_model = bm, summary = Some s\<rparr>
           \<and> length ft = length tcs \<and> length bm = length tcs
           \<and> average_score (sum_fine_tuned s) = mean (map res_score ft)
           \<and> average_score (sum_base_model s) = mean (map res_score bm)))
   \<and> fst (run_evaluation e (Some []) w) = Inl ZeroDivisionError"
proof (intro conjI impI)
  assume "rs \<noteq> []"
  then show "\<exists>m. summarise rs = Inr m \<and> average_score m = mean (map res_score rs)"
    using summarise_nonempty [of rs] by (simp add: mean_def)
next
  show "summarise [] = Inl ZeroDivisionError" by (rule summarise_empty)
next
  assume a: "(\<forall>calls m p. \<exists>t. generate e calls m p = Inr t) \<and> tcs \<noteq> []"
  then have gen: "\<forall>calls m p. \<exists>t. generate e calls m p = Inr t" and ne: "tcs \<noteq> []"
    by blast+
  have tcs: "tcs = (case Some tcs of None \<Rightarrow> create_evaluation_tests | Some l \<Rightarrow> l)"
    by simp
  from run_evaluation_ok [OF gen tcs ne, of w] obtain ft bm s where r:
    "fst (run_evaluation e (Some tcs) w)
        = Inr \<lparr>fine_tuned = ft, base_model = bm, summary = Some s\<rparr>"
    "calculate_summary \<lparr>fine_tuned = ft, base_model = bm, summary = None\<rparr> = Inr s"
    "map result_fields ft = map case_fields tcs"
    "map result_fields bm = map case_fields tcs"
    by force
  have len: "length ft = length tcs" "length bm = length tcs"
    using r(3,4) by (metis length_map)+
  with ne have "ft \<noteq> []" "bm \<noteq> []" by auto
  then have "average_score (sum_fine_tuned s) = mean (map res_score ft)"
    "average_score (sum_base_model s) = mean (map res_score bm)"
    using calculate_summary_nonempty [of "\<lparr>fine_tuned = ft, base_model = bm, summary = None\<rparr>"] r(2)
    by (auto simp: mean_def)
  with r(1) len show "\<exists>ft bm s. fst (run_evaluation e (Some tcs) w)
                      = Inr \<lparr>fine_tuned = ft, base_model = bm, summary = Some s\<rparr>
           \<and> length ft = length tcs \<and> length bm = length tcs
           \<and> average_score (sum_fine_tuned s) = mean (map res_score ft)
           \<and> average_score (sum_base_model s) = mean (map res_score bm)"
    by blast
next
  show "fst (run_evaluation e (Some []) w) = Inl ZeroDivisionError"
    by (simp add: run_evaluation_def calculate_summary_def summarise_empty)
qed

theorem average_score_defined_witness:
  "(\<exists>m. summarise [result_with_score (1 / 2), result_with_score 1] = Inr m
        \<and> average_score m = 3 / 4)
   \<and> (\<exists>ft bm s. fst (run_evaluation echo_env (Some [npx_case]) new_world)
                      = Inr \<lparr>fine_tuned = ft, base_model = bm, summary = Some s\<rparr>
           \<and> length ft = 1 \<and> length bm = 1
           \<and> average_score (sum_fine_tuned s) = mean (map res_score ft)
           \<and> average_score (sum_base_model s) = mean (map res_score bm))"
  using average_score_defined [where rs = "[result_with_score (1 / 2), result_with_score 1]"
      and e = echo_env and tcs = "[npx_case]" and w = new_world]
  by (auto simp: mean_def result_with_score_def echo_env_def)

section \<open>Properties of the patterns\<close>

lemma rmatch_lit:
  "rmatch (lit w) s g = (if starts_with s w then [(drop (length w) s, g)] else [])"
proof (induction w arbitrary: s)
  case Nil
  then show ?case by simp
next
  case (Cons c cs)
  show ?case
  proof (cases s)
    case Nil
    then show ?thesis by simp
  next
    case (Cons x xs)
    then show ?thesis using Cons.IH [of xs] by simp
  qed
qed

lemma rmatch_seq_eq:
  "rmatch (Seq r1 r2) s g = concat (map (\<lambda>(s', g'). rmatch r2 s' g') (rmatch r1 s g))"
  by simp

lemma rmatch_group_eq:
  "rmatch (Group n r) s g =
     map (\<lambda>(s', g'). (s', g'(n := take (length s - length s') s))) (rmatch r s g)"
  by simp

lemma rmatch_lazy_dot_Nil: "rmatch (LazyStar Dot) [] g = [([], g)]"
  by simp

lemma rmatch_lazy_dot_Cons:
  "rmatch (LazyStar Dot) (x # xs) g = (x # xs, g) # rmatch (LazyStar Dot) xs g"
  by simp

lemma rmatch_lazy_dot: "rmatch (LazyStar Dot) s g = map (\<lambda>t. (t, g)) (tails s)"
  by (induction s) simp_all

lemma scan_tails:
  "concat (map (\<lambda>t. K (take (length (acc @ s) - length t) (acc @ s)) t) (tails s)) = scan K acc s"
proof (induction s arbitrary: acc)
  case Nil
  then show ?case by simp
next
  case (Cons x xs)
  from Cons.IH [of "acc @ [x]"] show ?case by simp
qed

lemma rmatch_lazy_group:
  "rmatch (Seq (Group n (LazyStar Dot)) R) s g = scan (\<lambda>a t. rmatch R t (g(n := a))) [] s"
proof -
  have "rmatch (Seq (Group n (LazyStar Dot)) R) s g
      = concat (map (\<lambda>t. rmatch R t (g(n := take (length s - length t) s))) (tails s))"
    by (simp only: rmatch_seq_eq rmatch_group_eq rmatch_lazy_dot map_map o_def prod.case)
  also have "\<dots> = scan (\<lambda>a t. rmatch R t (g(n := a))) [] s"
    using scan_tails [of "\<lambda>a t. rmatch R t (g(n := a))" "[]" s] by simp
  finally show ?thesis .
qed

lemma rmatch_lit_then:
  "rmatch (Seq (lit w) R) s g = (if starts_with s w then rmatch R (drop (length w) s) g else [])"
  by (simp only: rmatch_seq_eq rmatch_lit) simp

lemma rmatch_eos: "rmatch Eos t g = (if t = [] \<or> t = ''\<newline>'' then [(t, g)] else [])"
  by simp

lemma rmatch_alt_eq: "rmatch (Alt r1 r2) s g = rmatch r1 s g @ rmatch r2 s g"
  by simp

lemma rmatch_look_eq:
  "rmatch (Look r) s g = (case rmatch r s g of [] \<Rightarrow> [] | (s', g') # _ \<Rightarrow> [(s, g')])"
  by simp

lemma rmatch_section_look:
  "rmatch (Look (Alt (lit ''\<newline>## '') Eos)) t g = (if section_stop t then [(t, g)] else [])"
  by (simp only: rmatch_look_eq rmatch_alt_eq rmatch_lit rmatch_eos section_stop_def) auto


lemma scan_stop:
  assumes "stop []"
  shows "\<exists>more. scan (\<lambda>a t. if stop t then [(t, G a)] else []) acc s
           = (drop (length (before stop s)) s, G (acc @ before stop s)) # more"
proof (induction s arbitrary: acc)
  case Nil
  then show ?case using assms by simp
next
  case (Cons x xs)
  show ?case
  proof (cases "stop (x # xs)")
    case True
    then show ?thesis by simp
  next
    case False
    then show ?thesis using Cons.IH [of "acc @ [x]"] by simp
  qed
qed

lemma rmatch_section_pattern:
  "rmatch (section_pattern h) s g =
     (if starts_with s h
      then scan (\<lambda>a t. if section_stop t then [(t, g(1 := a))] else []) [] (drop (length h) s)
      else [])"
  unfolding section_pattern_def seq.simps
  by (simp only: rmatch_lit_then rmatch_lazy_group rmatch_section_look)

lemma search_section_pattern:
  "search (section_pattern h) c =
     (case after_first h c of
        None \<Rightarrow> None
      | Some rest \<Rightarrow> Some (no_groups(1 := before section_stop rest)))"
proof (induction c)
  case Nil
  show ?case
  proof (cases "h = []")
    case True
    then show ?thesis
      by (simp add: rmatch_section_pattern section_stop_def del: rmatch.simps)
  next
    case False
    then have "\<not> starts_with [] h" by (cases h) simp_all
    with False show ?thesis
      by (simp add: rmatch_section_pattern del: rmatch.simps)
  qed
next
  case (Cons x xs)
  show ?case
  proof (cases "starts_with (x # xs) h")
    case True
    have "section_stop []" by (simp add: section_stop_def)
    from scan_stop [of section_stop "\<lambda>a. no_groups(1 := a)" "[]" "drop (length h) (x # xs)", OF this]
    obtain more where
      "scan (\<lambda>a t. if section_stop t then [(t, no_groups(1 := a))] else []) []
         (drop (length h) (x # xs))
       = (drop (length (before section_stop (drop (length h) (x # xs)))) (drop (length h) (x # xs)),
          no_groups(1 := before section_stop (drop (length h) (x # xs)))) # more"
      by auto
    with True show ?thesis
      by (simp add: rmatch_section_pattern del: rmatch.simps)
  next
    case False
    with Cons.IH show ?thesis
      by (simp add: rmatch_section_pattern del: rmatch.simps)
  qed
qed

lemma extract_section_eq:
  "extract_section h c =
     (case after_first h c of None \<Rightarrow> [] | Some rest \<Rightarrow> strip (before section_stop rest))"
  by (simp add: extract_section_def search_section_pattern split: option.splits)

section \<open>Properties of section lookup\<close>

lemma strip_Nil: "strip [] = []"
  by (simp add: strip_def)

lemma strip_snoc_space:
  assumes "isspace c"
  shows "strip (s @ [c]) = strip s"
proof (cases "\<forall>x \<in> set s. isspace x")
  case True
  then have "\<forall>x \<in> set (s @ [c]). isspace x" using assms by auto
  then have a: "dropWhile isspace (s @ [c]) = []" by (simp only: dropWhile_eq_Nil_conv)
  have b: "dropWhile isspace s = []" using True by (simp only: dropWhile_eq_Nil_conv)
  show ?thesis unfolding strip_def a b ..
next
  case False
  then obtain x where "x \<in> set s" "\<not> isspace x" by blast
  then have "dropWhile isspace (s @ [c]) = dropWhile isspace s @ [c]"
    by (rule dropWhile_append1)
  then show ?thesis using assms by (simp add: strip_def)
qed

lemma isspace_newline: "isspace (CHR 0x0A)"
  by (simp add: isspace_def)

lemma before_section_stop:
  "before section_stop s = before (\<lambda>t. starts_with t ''\<newline>## '') s
   \<or> before (\<lambda>t. starts_with t ''\<newline>## '') s = before section_stop s @ ''\<newline>''"
proof (induction s)
  case Nil
  then show ?case by simp
next
  case (Cons x xs)
  show ?case
  proof (cases "starts_with (x # xs) ''\<newline>## ''")
    case True
    then show ?thesis by (simp add: section_stop_def)
  next
    case False
    show ?thesis
    proof (cases "x # xs = ''\<newline>''")
      case True
      then show ?thesis by (simp add: section_stop_def)
    next
      case nl: False
      with False have "\<not> section_stop (x # xs)" by (simp add: section_stop_def)
      with False Cons.IH show ?thesis by auto
    qed
  qed
qed

lemma strip_before_section_stop:
  "strip (before section_stop s) = strip (before (\<lambda>t. starts_with t ''\<newline>## '') s)"
  using before_section_stop [of s] strip_snoc_space [OF isspace_newline, of "before section_stop s"]
  by auto

lemma after_first_None_iff: "after_first h c = None \<longleftrightarrow> \<not> in_str h c"
  by (induction c) auto

lemma after_first_leftmost:
  assumes "c = ps @ h @ rest" and "\<forall>i < length ps. \<not> starts_with (drop i c) h"
  shows "after_first h c = Some rest"
  using assms
proof (induction ps arbitrary: c)
  case Nil
  have c: "c = h @ rest" using Nil by simp
  have sw: "starts_with c h" unfolding c by (simp add: starts_with_iff)
  have dr: "drop (length h) c = rest" unfolding c by simp
  show ?case
  proof (cases c)
    case Nil
    with c show ?thesis by simp
  next
    case (Cons a list)
    with sw dr show ?thesis by simp
  qed
next
  case (Cons p ps)
  from Cons.prems(2) have "\<not> starts_with (drop 0 c) h" by auto
  then have no: "\<not> starts_with (p # ps @ h @ rest) h" using Cons.prems(1) by simp
  have "\<forall>i < length ps. \<not> starts_with (drop i (ps @ h @ rest)) h"
  proof (intro allI impI)
    fix i assume "i < length ps"
    then have "Suc i < length (p # ps)" by simp
    with Cons.prems(2) have "\<not> starts_with (drop (Suc i) c) h" by blast
    then show "\<not> starts_with (drop i (ps @ h @ rest)) h" using Cons.prems(1) by simp
  qed
  then have "after_first h (ps @ h @ rest) = Some rest"
    using Cons.IH by blast
  with no show ?case using Cons.prems(1) by simp
qed

lemma before_decomp:
  "\<exists>tail. s = before stop s @ tail \<and> (tail = [] \<or> stop tail)
          \<and> (\<forall>i < length (before stop s). \<not> stop (drop i s))"
proof (induction s)
  case Nil
  then show ?case by simp
next
  case (Cons x xs)
  show ?case
  proof (cases "stop (x # xs)")
    case True
    then show ?thesis by simp
  next
    case False
    from Cons.IH obtain tail where t: "xs = before stop xs @ tail" "tail = [] \<or> stop tail"
      "\<forall>i < length (before stop xs). \<not> stop (drop i xs)" by blast
    have "\<forall>i < length (before stop (x # xs)). \<not> stop (drop i (x # xs))"
    proof (intro allI impI)
      fix i assume i: "i < length (before stop (x # xs))"
      show "\<not> stop (drop i (x # xs))"
      proof (cases i)
        case 0
        then show ?thesis using False by simp
      next
        case (Suc j)
        with i False have "j < length (before stop xs)" by simp
        with t(3) Suc show ?thesis by simp
      qed
    qed
    moreover have "x # xs = before stop (x # xs) @ tail"
      using False t(1) by simp
    ultimately show ?thesis using t(2) by blast
  qed
qed

lemma two_sections_values:
  "extract_section ''## A'' two_sections = ''foo''"
  "section_as_stated ''## A'' two_sections = ''\<newline>foo \<newline>''"
  "extract_section ''## B'' two_sections = ''bar''"
  "extract_section ''## C'' two_sections = []"
  by code_simp+


text \<open>
  Claim C1, as stated, fails: the lookup does not return the text between the heading
  and the next top-level heading itself. In the document \<open>two_sections\<close> that text is a
  line break, \<open>foo\<close>, a space and a line break; the lookup returns \<open>foo\<close>.
\<close>

theorem extract_section_untrimmed_counterexample:
  "extract_section ''## A'' two_sections = ''foo''
   \<and> section_as_stated ''## A'' two_sections = ''\<newline>foo \<newline>''
   \<and> extract_section ''## A'' two_sections \<noteq> section_as_stated ''## A'' two_sections"
  by (simp add: two_sections_values)


text \<open>
  Claim C1, amended. For every document and every heading, the lookup returns the text
  from just after the first occurrence of the heading up to (but not including) the next
  line that starts with \<open>## \<close>, or up to the end of the document, with the white space
  at both of its ends removed; and it returns the empty string for every document in
  which the heading does not occur.
\<close>

theorem extract_section_trimmed:
  "extract_section header content = strip (section_as_stated header content)
   \<and> (\<not> (\<exists>ps ss. content = ps @ header @ ss) \<longrightarrow> extract_section header content = [])
   \<and> (\<forall>ps rest. content = ps @ header @ rest
          \<and> (\<forall>i < length ps. \<not> starts_with (drop i content) header) \<longrightarrow>
        (\<exists>body tail. rest = body @ tail
           \<and> (tail = [] \<or> starts_with tail ''\<newline>## '')
           \<and> (\<forall>i < length body. \<not> starts_with (drop i rest) ''\<newline>## '')
           \<and> extract_section header content = strip body))"
proof (intro conjI allI impI)
  show eq: "extract_section header content = strip (section_as_stated header content)"
    by (simp add: extract_section_eq section_as_stated_def strip_before_section_stop strip_Nil
        split: option.splits)
  assume "\<not> (\<exists>ps ss. content = ps @ header @ ss)"
  then have "after_first header content = None"
    by (simp add: after_first_None_iff in_str_iff)
  then show "extract_section header content = []"
    by (simp add: extract_section_eq)
next
  fix ps rest
  assume a: "content = ps @ header @ rest
          \<and> (\<forall>i < length ps. \<not> starts_with (drop i content) header)"
  then have af: "after_first header content = Some rest"
    using after_first_leftmost by blast
  define body where "body = before (\<lambda>t. starts_with t ''\<newline>## '') rest"
  obtain tail where "rest = body @ tail" "tail = [] \<or> starts_with tail ''\<newline>## ''"
    "\<forall>i < length body. \<not> starts_with (drop i rest) ''\<newline>## ''"
    using before_decomp [of rest "\<lambda>t. starts_with t ''\<newline>## ''"] unfolding body_def by blast
  moreover have "extract_section header content = strip body"
    using af by (simp add: extract_section_eq strip_before_section_stop body_def)
  ultimately show "\<exists>body tail. rest = body @ tail
           \<and> (tail = [] \<or> starts_with tail ''\<newline>## '')
           \<and> (\<forall>i < length body. \<not> starts_with (drop i rest) ''\<newline>## '')
           \<and> extract_section header content = strip body"
    by blast
qed

theorem extract_section_trimmed_witness:
  "extract_section ''## A'' two_sections = strip ''\<newline>foo \<newline>''
   \<and> extract_section ''## C'' two_sections = []"
  using extract_section_trimmed [of "''## A''" two_sections]
    extract_section_trimmed [of "''## C''" two_sections]
  by (simp add: two_sections_values)

section \<open>Properties of the extraction routines\<close>


lemma foldl_snoc_map: "foldl (\<lambda>exs p. exs @ [f p]) ex xs = ex @ map f xs"
  by (induction xs arbitrary: ex) simp_all


lemma extract_field_patterns_eq:
  "extract_field_patterns sec ex = ex @ map field_pattern_example (findall2 bullet_pattern sec)"
  by (simp add: extract_field_patterns_def foldl_snoc_map)

lemma extract_architecture_patterns_appends:
  "extract_architecture_patterns c ex = ex @ extract_architecture_patterns c []"
  by (simp add: extract_architecture_patterns_def extract_field_patterns_eq foldl_snoc_map Let_def)












text \<open>
  The first scenario of the specification: a section \<open>## Critical Commands\<close> with the
  subsection \<open>### Check Status\<close> and one fenced command gives one example, with the
  command inside a fenced block.
\<close>

lemma commands_doc_examples:
  "extract_all_examples commands_doc =
     [\<lparr>ex_instruction = ''How do I check status?'',
       ex_context = ''I need to execute commands for development environment management'',
       ex_response = ''For Check Status:\<newline>```bash\<newline>npx prisma migrate status\<newline>```''\<rparr>]"
  by code_simp




section \<open>Properties of bullet-pair extraction\<close>

























text \<open>What the whole extraction makes of the document \<open>demo_document\<close>.\<close>

lemma demo_document_examples:
  "extract_all_examples demo_document
     = [\<lparr>ex_instruction = ''What is the Estate Email Pattern and how should I implement it?'',
         ex_context = ''I'm working on a GraphQL/Prisma/React application with PostgreSQL database'',
         ex_response = ''The Estate Email Pattern: unique,\<newline>  nullable''\<rparr>,
        \<lparr>ex_instruction = ''What is the taxId and how should I implement it?'',
         ex_context = ''I'm working on a GraphQL/Prisma/React application with PostgreSQL database'',
         ex_response = ''The taxId: no constraint''\<rparr>,
        \<lparr>ex_instruction = ''What is the scanBoxId and how should I implement it?'',
         ex_context = ''I'm working on a GraphQL/Prisma/React application with PostgreSQL database'',
         ex_response = ''The scanBoxId: display-only''\<rparr>]"
  by code_simp


text \<open>
  A bullet under the subsection \<open>### GraphQL Resolver Priority\<close> is extracted twice by
  \<open>_extract_architecture_patterns\<close>: once by the block for all bullets of the section
  and once by the block for that subsection.
\<close>

lemma resolver_doc_examples:
  "extract_architecture_patterns resolver_doc []
     = [field_pattern_example (''Both'', ''registered''),
        resolver_example (''Both'', ''registered'')]"
  by code_simp





section \<open>Properties of the line-delimited output\<close>

lemma hex_val_hex_digit: "k < 16 \<Longrightarrow> hex_val (hex_digit k) = Some k"
  by (auto simp: hex_val_def hex_digit_def Let_def)

lemma hex_val_zero: "hex_val (CHR ''0'') = Some 0"
  by (simp add: hex_val_def)

lemma unicode_escape_control:
  "unicode_escape (CHR ''0'') (CHR ''0'') (hex_digit ((of_char x :: nat) div 16))
      (hex_digit ((of_char x :: nat) mod 16)) = Some x"
proof -
  have d: "(of_char x :: nat) div 16 < 16"
    using nat_of_char_less_256 [of x] by presburger
  have m: "(of_char x :: nat) mod 16 < 16" by simp
  show ?thesis
    using d by (simp add: unicode_escape_def hex_val_zero hex_val_hex_digit [OF d]
        hex_val_hex_digit [OF m] Let_def)
qed

lemma parse_chars_escape:
  assumes "tail \<noteq> []"
  shows "parse_chars (escape_char x @ tail) acc = parse_chars tail (acc @ [x])"
proof -
  obtain e cs where tail: "tail = e # cs" using assms by (cases tail) auto
  consider "x = dquote" | "x = backslash" | "x = CHR 0x0A" | "x = CHR 0x0D" | "x = CHR 0x09"
    | "x = CHR 0x08" | "x = CHR 0x0C"
    | "x \<noteq> dquote" "x \<noteq> backslash" "x \<noteq> CHR 0x0A" "x \<noteq> CHR 0x0D" "x \<noteq> CHR 0x09"
      "x \<noteq> CHR 0x08" "x \<noteq> CHR 0x0C" "(of_char x :: nat) < 32"
    | "x \<noteq> dquote" "x \<noteq> backslash" "\<not> (of_char x :: nat) < 32"
    by (cases "(of_char x :: nat) < 32") auto
  then show ?thesis
  proof cases
    case 8
    then show ?thesis
      unfolding tail
      by (simp add: escape_char_def unicode_escape_control)
        (simp add: dquote_def backslash_def)
  next
    case 9
    then have "x \<noteq> CHR 0x0A" "x \<noteq> CHR 0x0D" "x \<noteq> CHR 0x09" "x \<noteq> CHR 0x08" "x \<noteq> CHR 0x0C"
      by auto
    with 9 show ?thesis
      unfolding tail by (simp add: escape_char_def)
  qed (simp_all add: tail escape_char_def simple_escape_def dquote_def backslash_def)
qed

lemma parse_chars_dumps:
  "parse_chars (concat (map escape_char s) @ dquote # rest) acc = Some (acc @ s, rest)"
proof (induction s arbitrary: acc)
  case Nil
  then show ?case by (cases rest) simp_all
next
  case (Cons x xs)
  have "parse_chars (escape_char x @ (concat (map escape_char xs) @ dquote # rest)) acc
      = parse_chars (concat (map escape_char xs) @ dquote # rest) (acc @ [x])"
    by (rule parse_chars_escape) simp
  then show ?case using Cons.IH [of "acc @ [x]"] by simp
qed

lemma parse_string_dumps: "parse_string (dumps_str s @ rest) = Some (s, rest)"
  using parse_chars_dumps [of s rest "[]"] by (simp add: parse_string_def dumps_str_def)

lemma hex_digit_not_newline:
  assumes "k < 16"
  shows "hex_digit k \<noteq> CHR 0x0A"
proof
  assume "hex_digit k = CHR 0x0A"
  then have "(of_char (hex_digit k) :: nat) = of_char (CHR 0x0A)" by simp
  then show False using assms
    by (simp add: hex_digit_def split: if_splits)
qed

lemma escape_char_no_newline: "CHR 0x0A \<notin> set (escape_char x)"
proof -
  have d: "(of_char x :: nat) div 16 < 16"
    using nat_of_char_less_256 [of x] by presburger
  have m: "(of_char x :: nat) mod 16 < 16" by simp
  show ?thesis
    using hex_digit_not_newline [OF d] hex_digit_not_newline [OF m]
    by (auto simp: escape_char_def dquote_def backslash_def)
qed

lemma dumps_str_no_newline: "CHR 0x0A \<notin> set (dumps_str s)"
  using escape_char_no_newline by (auto simp: dumps_str_def dquote_def)

lemma dumps_no_newline: "CHR 0x0A \<notin> set (dumps e)"
  using dumps_str_no_newline by (auto simp: dumps_def)

lemma lines_from_line:
  "CHR 0x0A \<notin> set l \<Longrightarrow> lines_from (l @ CHR 0x0A # rest) cur = (cur @ l) # lines_from rest []"
  by (induction l arbitrary: cur) auto

lemma jsonl_text_eq: "jsonl_text es = concat (map (\<lambda>e. dumps e @ ''\<newline>'') es)"
proof -
  have "foldl (\<lambda>f example. f @ dumps example @ ''\<newline>'') acc es
      = acc @ concat (map (\<lambda>e. dumps e @ ''\<newline>'') es)" for acc
    by (induction es arbitrary: acc) simp_all
  then show ?thesis by (simp add: jsonl_text_def)
qed

lemma lines_from_jsonl: "lines_from (jsonl_text es) [] = map dumps es"
proof (induction es)
  case Nil
  then show ?case by (simp add: jsonl_text_eq)
next
  case (Cons e es)
  have "lines_from (dumps e @ CHR 0x0A # jsonl_text es) [] = ([] @ dumps e) # lines_from (jsonl_text es) []"
    using dumps_no_newline by (rule lines_from_line)
  with Cons show ?case by (simp add: jsonl_text_eq)
qed

lemma skip_ws_dumps_str: "skip_ws (dumps_str k @ rest) = dumps_str k @ rest"
  by (simp add: skip_ws_def dumps_str_def json_space_def dquote_def)

lemma skip_ws_space: "skip_ws (CHR '' '' # s) = skip_ws s"
  by (simp add: skip_ws_def json_space_def)

lemma expect_colon: "expect (CHR '':'') (CHR '':'' # s) = Some s"
  by (simp add: expect_def skip_ws_def json_space_def)

lemma skip_ws_comma: "skip_ws (CHR '','' # s) = CHR '','' # s"
  by (simp add: skip_ws_def json_space_def)

lemma skip_ws_brace: "skip_ws (CHR ''}'' # s) = CHR ''}'' # s"
  by (simp add: skip_ws_def json_space_def)

lemma parse_member_comma:
  "parse_members (Suc fuel) (dumps_str k @ '': '' @ dumps_str v @ '', '' @ rest)
     = (case parse_members fuel ('' '' @ rest) of
          None \<Rightarrow> None
        | Some (m, s5) \<Rightarrow> Some ((k, v) # m, s5))"
  by (simp add: skip_ws_dumps_str parse_string_dumps expect_colon skip_ws_space skip_ws_comma)

lemma parse_member_last:
  "parse_members (Suc fuel) (dumps_str k @ '': '' @ dumps_str v @ ''}'' @ rest)
     = Some ([(k, v)], rest)"
  by (simp add: skip_ws_dumps_str parse_string_dumps expect_colon skip_ws_space skip_ws_brace)

lemma parse_members_space: "parse_members fuel ('' '' @ s) = parse_members fuel s"
  by (cases fuel) (simp_all add: skip_ws_space)

lemma parse_object_dumps:
  "parse_object (dumps e)
     = Some [(''instruction'', ex_instruction e), (''context'', ex_context e),
             (''response'', ex_response e)]"
proof -
  define s1 where
    "s1 = dumps_str ''instruction'' @ '': '' @ dumps_str (ex_instruction e) @ '', ''
            @ dumps_str ''context'' @ '': '' @ dumps_str (ex_context e) @ '', ''
            @ dumps_str ''response'' @ '': '' @ dumps_str (ex_response e) @ ''}'' @ []"
  have d: "dumps e = CHR ''{'' # s1" by (simp add: dumps_def s1_def)
  have open_brace: "expect (CHR ''{'') (dumps e) = Some s1"
    by (simp add: d expect_def skip_ws_def json_space_def)
  have "3 \<le> length s1" by (simp add: s1_def dumps_str_def)
  then obtain n where "length s1 = 3 + n" using le_Suc_ex by blast
  then have fuel: "length s1 = Suc (Suc (Suc n))" by simp
  have members: "parse_members (Suc (Suc (Suc n))) s1
      = Some ([(''instruction'', ex_instruction e), (''context'', ex_context e),
               (''response'', ex_response e)], [])"
    unfolding s1_def
    by (simp only: parse_member_comma parse_members_space parse_member_last option.case prod.case)
  have first: "skip_ws s1 = s1"
    unfolding s1_def by (rule skip_ws_dumps_str)
  have hd: "\<exists>t. s1 = dquote # t \<and> dquote \<noteq> CHR ''}''"
    by (simp add: s1_def dumps_str_def dquote_def)
  then obtain t where t: "s1 = dquote # t" "dquote \<noteq> CHR ''}''" by blast
  have "skip_ws s1 = dquote # t" using first t(1) by simp
  then show ?thesis
    using t(2) members
    by (simp add: parse_object_def open_brace fuel skip_ws_def)
qed

lemma example_keys_distinct:
  "''response'' \<noteq> ''instruction''" "''response'' \<noteq> ''context''" "''context'' \<noteq> ''instruction''"
  by simp_all

lemma map_of_members:
  "map_of (rev [(''instruction'', i), (''context'', c), (''response'', r)]) ''instruction'' = Some i"
  "map_of (rev [(''instruction'', i), (''context'', c), (''response'', r)]) ''context'' = Some c"
  "map_of (rev [(''instruction'', i), (''context'', c), (''response'', r)]) ''response'' = Some r"
  using example_keys_distinct by (simp_all del: list.inject)

lemma keys_of_members:
  "set (map fst [(''instruction'', i), (''context'', c), (''response'', r)])
     = {''instruction'', ''context'', ''response''}"
  by (simp only: list.map fst_conv list.set)

lemma loads_dumps: "loads_example (dumps e) = Some e"
  unfolding loads_example_def parse_object_dumps
  by (simp only: option.case map_of_members prod.case keys_of_members if_True) simp

lemma load_all_dumps: "load_all (map dumps es) = Some es"
  by (induction es) (simp_all add: loads_dumps)

lemma read_jsonl_text: "read_jsonl (jsonl_text examples) = Some examples"
  by (simp only: read_jsonl_def lines_from_jsonl load_all_dumps)

lemma save_training_data_jsonl:
  "open_output e output_file = None \<Longrightarrow>
     save_training_data e examples output_file ''jsonl'' w
       = (Inr (), say (''Saved '' @ str_nat (length examples) @ '' training examples to '' @ output_file)
                    (w\<lparr>files := files w @ [(output_file, jsonl_text examples)]\<rparr>))"
  unfolding save_training_data_def Let_def by (simp only: if_True option.case simp_thms)


text \<open>The line written for \<open>tricky_example\<close>.\<close>

lemma tricky_example_line:
  "dumps tricky_example =
     ''{'' @ [dquote] @ ''instruction'' @ [dquote] @ '': '' @ [dquote] @ ''say ''
       @ [backslash, dquote] @ ''hi'' @ [backslash, dquote, backslash, backslash, dquote]
       @ '', '' @ [dquote] @ ''context'' @ [dquote] @ '': '' @ [dquote] @ ''two'' @ [backslash]
       @ ''nlines'' @ [backslash] @ ''t'' @ [backslash] @ ''u0001'' @ [CHR 0xE9, dquote]
       @ '', '' @ [dquote] @ ''response'' @ [dquote] @ '': '' @ [dquote, dquote] @ ''}''"
  by code_simp


text \<open>
  Claim C8. For every list of examples, the line-delimited text that
  \<open>save_training_data\<close> writes, one JSON object on each line, reads back as the same
  list of examples in the same order; and that text is what the file holds once the
  output has been opened.
\<close>

theorem jsonl_round_trip:
  "read_jsonl (jsonl_text examples) = Some examples
   \<and> (open_output e output_file = None \<longrightarrow>
        (\<exists>w'. save_training_data e examples output_file ''jsonl'' w = (Inr (), w')
           \<and> files w' = files w @ [(output_file, jsonl_text examples)]))"
proof (intro conjI impI)
  show "read_jsonl (jsonl_text examples) = Some examples" by (rule read_jsonl_text)
next
  assume "open_output e output_file = None"
  from save_training_data_jsonl [OF this, of examples w]
  show "\<exists>w'. save_training_data e examples output_file ''jsonl'' w = (Inr (), w')
           \<and> files w' = files w @ [(output_file, jsonl_text examples)]"
    by (simp add: say_def)
qed

theorem jsonl_round_trip_witness:
  "read_jsonl (jsonl_text [tricky_example, tricky_example]) = Some [tricky_example, tricky_example]
   \<and> fst (save_training_data (memory_env []) [tricky_example] ''out.jsonl'' ''jsonl'' fresh_world)
       = Inr ()
   \<and> files (snd (save_training_data (memory_env []) [tricky_example] ''out.jsonl'' ''jsonl''
                   fresh_world))
       = [(''out.jsonl'', jsonl_text [tricky_example])]"
  using jsonl_round_trip [where examples = "[tricky_example, tricky_example]"]
    jsonl_round_trip [where examples = "[tricky_example]" and e = "memory_env []"
      and output_file = "''out.jsonl''" and w = fresh_world]
  by (auto simp: memory_env_def fresh_world_def)

end
